theory Spec2Isabelle
  imports Complex_Main "HOL-Library.Multiset" "HOL-Library.Sublist"
begin

section \<open>Library book usage analytics: the data model of main.py\<close>

text \<open>
  The program is a single Python module with three classes: \<open>Book\<close>, \<open>Member\<close> and
  \<open>LibraryAnalytics\<close>. Objects are mutable and shared by reference; the embedding uses
  values and explicit state passing: a method that mutates \<open>self\<close> returns the new
  object, and the registry writes the mutated object back under the key it was read
  from, at the position it already has (the Python object is mutated in place, so
  neither the key nor the position in the dictionary changes).
\<close>

subsection \<open>Python values\<close>

text \<open>
  The values the program builds dynamically (history records, the results of
  \<open>to_dict\<close>, the statistics and the report) are dictionaries with string keys
  whose values are strings, integers, floats, \<open>None\<close>, lists or dictionaries again.
  A binary64 float is represented by the rational number it denotes.
\<close>

datatype pyval =
    PyNone
  | PyInt int
  | PyFloat rat
  | PyStr string
  | PyList "pyval list"
  | PyDict "(string \<times> pyval) list"

text \<open>
  A Python \<open>dict\<close> keeps its keys in insertion order, so it is an association list.
  \<open>k in d\<close> is \<open>dict_contains\<close>, \<open>d[k]\<close> is \<open>dict_get\<close> (\<open>None\<close> where Python raises
  \<open>KeyError\<close>), \<open>d[k] = v\<close> is \<open>dict_setitem\<close> (a present key keeps its position, a
  new key goes to the end), \<open>d.values()\<close> is \<open>dict_values\<close>.
\<close>

type_synonym ('k, 'v) dict = "('k \<times> 'v) list"

definition dict_contains :: "'k \<Rightarrow> ('k, 'v) dict \<Rightarrow> bool" where
  "dict_contains k d = (map_of d k \<noteq> None)"

definition dict_get :: "('k, 'v) dict \<Rightarrow> 'k \<Rightarrow> 'v option" where
  "dict_get d k = map_of d k"

fun dict_setitem :: "('k, 'v) dict \<Rightarrow> 'k \<Rightarrow> 'v \<Rightarrow> ('k, 'v) dict" where
  "dict_setitem [] k v = [(k, v)]"
| "dict_setitem ((k', v') # d) k v =
     (if k' = k then (k, v) # d else (k', v') # dict_setitem d k v)"

definition dict_keys :: "('k, 'v) dict \<Rightarrow> 'k list" where
  "dict_keys d = map fst d"

definition dict_values :: "('k, 'v) dict \<Rightarrow> 'v list" where
  "dict_values d = map snd d"

subsection \<open>datetime\<close>

text \<open>
  A naive \<open>datetime.datetime\<close> (no time zone), as \<open>main\<close> builds them and as
  \<open>datetime.utcnow()\<close> returns them. \<open>isoformat\<close> prints
  \<open>YYYY-MM-DDTHH:MM:SS\<close>, followed by \<open>.ffffff\<close> when the microsecond is not zero.
\<close>

record datetime =
  year :: nat
  month :: nat
  day :: nat
  hour :: nat
  minute :: nat
  second :: nat
  microsecond :: nat

definition digit_char :: "nat \<Rightarrow> char" where
  "digit_char d = char_of (48 + d mod 10)"

fun zero_pad :: "nat \<Rightarrow> nat \<Rightarrow> string" where
  "zero_pad 0 n = (if n = 0 then [] else zero_pad 0 (n div 10) @ [digit_char n])"
| "zero_pad (Suc w) n = zero_pad w (n div 10) @ [digit_char n]"

definition isoformat :: "datetime \<Rightarrow> string" where
  "isoformat d =
     zero_pad 4 (year d) @ ''-'' @ zero_pad 2 (month d) @ ''-'' @ zero_pad 2 (day d) @ ''T'' @
     zero_pad 2 (hour d) @ '':'' @ zero_pad 2 (minute d) @ '':'' @ zero_pad 2 (second d) @
     (if microsecond d = 0 then [] else ''.'' @ zero_pad 6 (microsecond d))"

subsection \<open>Book\<close>

record book =
  book_id :: string
  title :: string
  author :: string
  isbn :: string
  total_checkouts :: int
  checkout_history :: "pyval list"
  last_checkout :: "datetime option"

text \<open>\<open>Book.__init__\<close>\<close>

definition Book :: "string \<Rightarrow> string \<Rightarrow> string \<Rightarrow> string \<Rightarrow> book" where
  "Book bid t a i =
     \<lparr> book_id = bid, title = t, author = a, isbn = i,
       total_checkouts = 0, checkout_history = [], last_checkout = None \<rparr>"

text \<open>\<open>Book.record_checkout\<close>: the counter, the history and the last checkout change.\<close>

definition record_checkout :: "book \<Rightarrow> string \<Rightarrow> datetime \<Rightarrow> book" where
  "record_checkout self mid checkout_date =
     self\<lparr> total_checkouts := total_checkouts self + 1,
           checkout_history := checkout_history self @
             [PyDict [(''member_id'', PyStr mid),
                      (''checkout_date'', PyStr (isoformat checkout_date))]],
           last_checkout := Some checkout_date \<rparr>"

text \<open>\<open>Book.to_dict\<close>\<close>

definition book_to_dict :: "book \<Rightarrow> pyval" where
  "book_to_dict self =
     PyDict [(''book_id'', PyStr (book_id self)),
             (''title'', PyStr (title self)),
             (''author'', PyStr (author self)),
             (''isbn'', PyStr (isbn self)),
             (''total_checkouts'', PyInt (total_checkouts self)),
             (''last_checkout'',
                (case last_checkout self of None \<Rightarrow> PyNone | Some d \<Rightarrow> PyStr (isoformat d)))]"

subsection \<open>Member\<close>

text \<open>
  The member's history attribute is called \<open>checkout_history\<close> in the source, like the
  book's; a record field is a constant, so the member's is \<open>member_checkout_history\<close>
  here.
\<close>

record member =
  member_id :: string
  name :: string
  email :: string
  books_checked_out :: "string list"
  member_checkout_history :: "pyval list"

text \<open>\<open>Member.__init__\<close>\<close>

definition Member :: "string \<Rightarrow> string \<Rightarrow> string \<Rightarrow> member" where
  "Member mid n e =
     \<lparr> member_id = mid, name = n, email = e,
       books_checked_out = [], member_checkout_history = [] \<rparr>"

text \<open>
  \<open>Member.checkout_book\<close> mutates the member and, through \<open>book.record_checkout\<close>, the
  book: it returns both.
\<close>

definition checkout_book :: "member \<Rightarrow> book \<Rightarrow> datetime \<Rightarrow> member \<times> book" where
  "checkout_book self b checkout_date =
     (self\<lparr> books_checked_out := books_checked_out self @ [book_id b],
            member_checkout_history := member_checkout_history self @
              [PyDict [(''book_id'', PyStr (book_id b)),
                       (''checkout_date'', PyStr (isoformat checkout_date))]] \<rparr>,
      record_checkout b (member_id self) checkout_date)"

text \<open>
  \<open>Member.return_book\<close>: \<open>list.remove\<close> deletes the first element equal to its
  argument, which is \<open>remove1\<close>.
\<close>

definition return_book :: "member \<Rightarrow> string \<Rightarrow> bool \<times> member" where
  "return_book self bid =
     (if bid \<in> set (books_checked_out self)
      then (True, self\<lparr> books_checked_out := remove1 bid (books_checked_out self) \<rparr>)
      else (False, self))"

text \<open>\<open>Member.to_dict\<close>\<close>

definition member_to_dict :: "member \<Rightarrow> pyval" where
  "member_to_dict self =
     PyDict [(''member_id'', PyStr (member_id self)),
             (''name'', PyStr (name self)),
             (''email'', PyStr (email self)),
             (''books_currently_checked_out'', PyInt (int (length (books_checked_out self)))),
             (''total_checkouts'', PyInt (int (length (member_checkout_history self))))]"

subsection \<open>LibraryAnalytics\<close>

text \<open>
  \<open>analytics_data\<close> is a \<open>defaultdict(list)\<close> that no method reads or writes.
\<close>

record LibraryAnalytics =
  books :: "(string, book) dict"
  members :: "(string, member) dict"
  analytics_data :: "(string, pyval list) dict"

text \<open>\<open>LibraryAnalytics.__init__\<close>\<close>

definition LibraryAnalytics_init :: LibraryAnalytics where
  "LibraryAnalytics_init = \<lparr> books = [], members = [], analytics_data = [] \<rparr>"

definition add_book :: "LibraryAnalytics \<Rightarrow> book \<Rightarrow> bool \<times> LibraryAnalytics" where
  "add_book self b =
     (if \<not> dict_contains (book_id b) (books self)
      then (True, self\<lparr> books := dict_setitem (books self) (book_id b) b \<rparr>)
      else (False, self))"

definition add_member :: "LibraryAnalytics \<Rightarrow> member \<Rightarrow> bool \<times> LibraryAnalytics" where
  "add_member self m =
     (if \<not> dict_contains (member_id m) (members self)
      then (True, self\<lparr> members := dict_setitem (members self) (member_id m) m \<rparr>)
      else (False, self))"

text \<open>
  \<open>process_checkout\<close>: after the guard both lookups succeed; the \<open>None\<close> branches of
  the \<open>case\<close> are the \<open>KeyError\<close> the guard excludes. The member object and the book
  object are mutated in place, so each is stored back under the key it was read from.
\<close>

definition process_checkout ::
  "LibraryAnalytics \<Rightarrow> string \<Rightarrow> string \<Rightarrow> datetime \<Rightarrow> bool \<times> LibraryAnalytics" where
  "process_checkout self mid bid checkout_date =
     (if \<not> dict_contains mid (members self) \<or> \<not> dict_contains bid (books self)
      then (False, self)
      else
        (case (dict_get (members self) mid, dict_get (books self) bid) of
           (Some m, Some b) \<Rightarrow>
             (let (m', b') = checkout_book m b checkout_date
              in (True, self\<lparr> members := dict_setitem (members self) mid m',
                              books := dict_setitem (books self) bid b' \<rparr>))
         | _ \<Rightarrow> (False, self)))"

text \<open>
  \<open>sorted(xs, key=f, reverse=True)\<close>. Python's sort is stable, also with
  \<open>reverse=True\<close>: elements with equal keys keep the order they have in \<open>xs\<close>. A
  stable sort that orders by a key has one possible result, so the stable insertion
  sort \<open>sort_key\<close> on the negated key computes it.
\<close>

definition sorted_reverse :: "('a \<Rightarrow> int) \<Rightarrow> 'a list \<Rightarrow> 'a list" where
  "sorted_reverse key xs = sort_key (\<lambda>x. - key x) xs"

text \<open>
  The slice \<open>xs[:k]\<close>: the first \<open>k\<close> elements when \<open>k\<close> is not negative; for a
  negative \<open>k\<close> Python counts from the end, so the slice is all but the last \<open>-k\<close>
  elements.
\<close>

definition slice_to :: "'a list \<Rightarrow> int \<Rightarrow> 'a list" where
  "slice_to xs k =
     (if 0 \<le> k then take (nat k) xs else take (length xs - nat (- k)) xs)"

text \<open>
  \<open>get_most_popular_books\<close>: \<open>most_popular\<close> is the list \<open>sorted_books[:limit]\<close> of
  the source, before each book is serialized.
\<close>

definition most_popular :: "LibraryAnalytics \<Rightarrow> int \<Rightarrow> book list" where
  "most_popular self limit =
     slice_to (sorted_reverse total_checkouts (dict_values (books self))) limit"

definition get_most_popular_books :: "LibraryAnalytics \<Rightarrow> int \<Rightarrow> pyval list" where
  "get_most_popular_books self limit = map book_to_dict (most_popular self limit)"

definition most_active :: "LibraryAnalytics \<Rightarrow> int \<Rightarrow> member list" where
  "most_active self limit =
     slice_to (sorted_reverse (\<lambda>m. int (length (member_checkout_history m)))
       (dict_values (members self))) limit"

definition get_most_active_members :: "LibraryAnalytics \<Rightarrow> int \<Rightarrow> pyval list" where
  "get_most_active_members self limit = map member_to_dict (most_active self limit)"

text \<open>
  \<open>str.lower\<close> on the code points below 256, which is what a \<open>char\<close> holds: the
  letters A to Z and the Latin-1 capitals (192 to 222 without the multiplication
  sign 215) move up by 32.
\<close>

definition lower_char :: "char \<Rightarrow> char" where
  "lower_char c =
     (let n = of_char c :: nat
      in if (65 \<le> n \<and> n \<le> 90) \<or> (192 \<le> n \<and> n \<le> 222 \<and> n \<noteq> 215)
         then char_of (n + 32) else c)"

definition lower :: "string \<Rightarrow> string" where
  "lower s = map lower_char s"

definition get_books_by_author :: "LibraryAnalytics \<Rightarrow> string \<Rightarrow> pyval list" where
  "get_books_by_author self a =
     map book_to_dict (filter (\<lambda>b. lower (author b) = lower a) (dict_values (books self)))"

definition get_member_checkout_history :: "LibraryAnalytics \<Rightarrow> string \<Rightarrow> pyval list" where
  "get_member_checkout_history self mid =
     (if \<not> dict_contains mid (members self) then []
      else (case dict_get (members self) mid of
              Some m \<Rightarrow> member_checkout_history m
            | None \<Rightarrow> []))"

subsection \<open>Floats and the statistics\<close>

text \<open>The exceptions a method can end in.\<close>

datatype error = ZeroDivisionError | OverflowError | TypeError | OSError

text \<open>
  Python floats are IEEE binary64 numbers; the model keeps the rational a float
  denotes. \<open>binary64 x\<close> is the float nearest to the rational \<open>x\<close>, ties to the even
  significand: 53 bits of precision, exponents down to the subnormal range, and
  \<open>None\<close> where the rounded magnitude reaches \<open>2 ^ 1024\<close> (Python raises
  \<open>OverflowError\<close>). The sign of a zero is not kept.
\<close>

definition round_half_even :: "rat \<Rightarrow> int" where
  "round_half_even x =
     (let f = \<lfloor>x\<rfloor>; r = x - of_int f
      in if r < 1 / 2 then f
         else if 1 / 2 < r then f + 1
         else if even f then f else f + 1)"

fun bit_length :: "nat \<Rightarrow> nat" where
  "bit_length n = (if n = 0 then 0 else Suc (bit_length (n div 2)))"

declare bit_length.simps [simp del]

definition two_powi :: "int \<Rightarrow> rat" where
  "two_powi e = (if 0 \<le> e then 2 ^ nat e else 1 / 2 ^ nat (- e))"

definition ilog2 :: "rat \<Rightarrow> int" where
  "ilog2 x =
     (if 1 \<le> x then int (bit_length (nat \<lfloor>x\<rfloor>)) - 1
      else - int (bit_length (nat \<lceil>1 / x\<rceil> - 1)))"

definition binary64 :: "rat \<Rightarrow> rat option" where
  "binary64 x =
     (if x = 0 then Some 0
      else
        (let a = \<bar>x\<bar>;
             e = max (ilog2 a - 52) (- 1074);
             y = of_int (round_half_even (a / two_powi e)) * two_powi e
         in if two_powi 1024 \<le> y then None else Some (if x < 0 then - y else y)))"

text \<open>
  What \<open>binary64\<close> is meant to compute, stated without the algorithm: the finite
  floats are the numbers \<open>m * 2 ^ e\<close> with \<open>\<bar>m\<bar> < 2 ^ 53\<close> and
  \<open>-1074 \<le> e \<le> 971\<close>, and a float is nearest to \<open>x\<close> when no float is closer
  to \<open>x\<close>.
\<close>

definition is_binary64 :: "rat \<Rightarrow> bool" where
  "is_binary64 y =
     (\<exists>m e. y = of_int m * two_powi e \<and> \<bar>m\<bar> < 2 ^ 53 \<and> - 1074 \<le> e \<and> e \<le> 971)"

definition nearest_binary64 :: "rat \<Rightarrow> rat \<Rightarrow> bool" where
  "nearest_binary64 x y = (is_binary64 y \<and> (\<forall>z. is_binary64 z \<longrightarrow> \<bar>y - x\<bar> \<le> \<bar>z - x\<bar>))"

text \<open>
  \<open>a / b\<close> on two Python ints is the correctly rounded quotient;
  \<open>round(x, ndigits)\<close> on a float rounds the exact value of \<open>x\<close> to \<open>ndigits\<close>
  decimals, halves to even, and returns the float nearest to that decimal; on an int
  with \<open>ndigits \<ge> 0\<close> it returns the int.
\<close>

definition int_truediv :: "int \<Rightarrow> int \<Rightarrow> error + rat" where
  "int_truediv a b =
     (if b = 0 then Inl ZeroDivisionError
      else (case binary64 (of_int a / of_int b) of
              None \<Rightarrow> Inl OverflowError
            | Some y \<Rightarrow> Inr y))"

definition float_round :: "rat \<Rightarrow> nat \<Rightarrow> error + rat" where
  "float_round x ndigits =
     (case binary64 (of_int (round_half_even (x * 10 ^ ndigits)) / 10 ^ ndigits) of
        None \<Rightarrow> Inl OverflowError
      | Some y \<Rightarrow> Inr y)"

fun py_round :: "pyval \<Rightarrow> nat \<Rightarrow> error + pyval" where
  "py_round (PyInt n) ndigits = Inr (PyInt n)"
| "py_round (PyFloat x) ndigits = map_sum id PyFloat (float_round x ndigits)"
| "py_round v ndigits = Inl TypeError"

text \<open>
  \<open>get_usage_statistics\<close>. \<open>utcnow\<close> is what \<open>datetime.utcnow()\<close> returns when the
  method runs.
\<close>

definition get_usage_statistics :: "LibraryAnalytics \<Rightarrow> datetime \<Rightarrow> error + pyval" where
  "get_usage_statistics self utcnow =
     (let total_books = int (length (books self));
          total_members = int (length (members self));
          total = sum_list (map total_checkouts (dict_values (books self)))
      in case (if 0 < total_books
               then map_sum id PyFloat (int_truediv total total_books)
               else Inr (PyInt 0)) of
           Inl e \<Rightarrow> Inl e
         | Inr avg_checkouts_per_book \<Rightarrow>
             (case py_round avg_checkouts_per_book 2 of
                Inl e \<Rightarrow> Inl e
              | Inr rounded \<Rightarrow>
                  Inr (PyDict [(''total_books'', PyInt total_books),
                               (''total_members'', PyInt total_members),
                               (''total_checkouts'', PyInt total),
                               (''average_checkouts_per_book'', rounded),
                               (''generated_at'', PyStr (isoformat utcnow))])))"

text \<open>
  The registry has no method for a return: the caller calls \<open>return_book\<close> on a
  \<open>Member\<close> object it holds. When that object is the one registered under \<open>mid\<close>, the
  registry sees the mutation; \<open>return_registered\<close> is that call (its result is \<open>None\<close>
  when no member is registered under \<open>mid\<close>, and the registry is untouched).
\<close>

definition return_registered ::
  "LibraryAnalytics \<Rightarrow> string \<Rightarrow> string \<Rightarrow> bool option \<times> LibraryAnalytics" where
  "return_registered self mid bid =
     (case dict_get (members self) mid of
        None \<Rightarrow> (None, self)
      | Some m \<Rightarrow>
          (let (ok, m') = return_book m bid
           in (Some ok, self\<lparr> members := dict_setitem (members self) mid m' \<rparr>)))"

subsection \<open>The JSON text of the report\<close>

text \<open>
  \<open>json.dump(report, f, indent=2)\<close> writes ints with \<open>int.__repr__\<close>, floats with
  \<open>float.__repr__\<close>, strings with every character outside printable ASCII escaped, and
  lists and dictionaries one element per line, indented by two spaces per level.
  \<open>float_repr\<close> is \<open>float.__repr__\<close>: the shortest decimal digit string that the float
  is the nearest float of, in positional notation when the decimal point falls within
  the digits or at most 4 zeros before or 16 digits in all, and in exponent notation
  otherwise.
\<close>

definition ten_powi :: "int \<Rightarrow> rat" where
  "ten_powi e = (if 0 \<le> e then 10 ^ nat e else 1 / 10 ^ nat (- e))"

definition ilog10 :: "rat \<Rightarrow> int" where
  "ilog10 x =
     (if 1 \<le> x then int (length (zero_pad 0 (nat \<lfloor>x\<rfloor>))) - 1
      else - int (length (zero_pad 0 (nat \<lceil>1 / x\<rceil> - 1))))"

definition repr_candidate :: "rat \<Rightarrow> int \<Rightarrow> int \<Rightarrow> int option" where
  "repr_candidate a e n =
     (let s = ten_powi (e + 1 - n);
          lo = \<lfloor>a / s\<rfloor>;
          hi = lo + 1;
          oklo = (binary64 (of_int lo * s) = Some a);
          okhi = (binary64 (of_int hi * s) = Some a);
          dl = a - of_int lo * s;
          dh = of_int hi * s - a
      in if oklo \<and> okhi then Some (if dl < dh \<or> (dl = dh \<and> even lo) then lo else hi)
         else if oklo then Some lo
         else if okhi then Some hi
         else None)"

fun shortest_digits :: "rat \<Rightarrow> int \<Rightarrow> nat \<Rightarrow> int \<Rightarrow> int \<times> int" where
  "shortest_digits a e 0 n = (round_half_even (a / ten_powi (e + 1 - n)), e + 1)"
| "shortest_digits a e (Suc fuel) n =
     (case repr_candidate a e n of
        Some c \<Rightarrow> if c = 10 ^ nat n then (1, e + 2) else (c, e + 1)
      | None \<Rightarrow> shortest_digits a e fuel (n + 1))"

definition float_repr :: "rat \<Rightarrow> string" where
  "float_repr x =
     (if x = 0 then ''0.0''
      else
        (let (c, decpt) = shortest_digits \<bar>x\<bar> (ilog10 \<bar>x\<bar>) 16 1;
             digits = zero_pad 0 (nat c);
             n = int (length digits);
             body =
               (if decpt \<le> - 4 \<or> 16 < decpt then
                  take 1 digits @ (if 1 < n then ''.'' @ drop 1 digits else []) @ ''e'' @
                  (if decpt - 1 < 0 then ''-'' else ''+'') @ zero_pad 2 (nat \<bar>decpt - 1\<bar>)
                else if decpt \<le> 0 then ''0.'' @ replicate (nat (- decpt)) CHR ''0'' @ digits
                else if n \<le> decpt then digits @ replicate (nat (decpt - n)) CHR ''0'' @ ''.0''
                else take (nat decpt) digits @ ''.'' @ drop (nat decpt) digits)
         in (if x < 0 then ''-'' else []) @ body))"

definition int_repr :: "int \<Rightarrow> string" where
  "int_repr i = (if i < 0 then ''-'' @ zero_pad 1 (nat (- i)) else zero_pad 1 (nat i))"

definition hex_digit :: "nat \<Rightarrow> char" where
  "hex_digit d = (if d < 10 then char_of (48 + d) else char_of (87 + d))"

definition escape_char :: "char \<Rightarrow> string" where
  "escape_char c =
     (let n = of_char c :: nat
      in if n = 34 then [CHR 0x5C, CHR 0x22]
         else if n = 92 then [CHR 0x5C, CHR 0x5C]
         else if n = 10 then [CHR 0x5C, CHR ''n'']
         else if n = 13 then [CHR 0x5C, CHR ''r'']
         else if n = 9 then [CHR 0x5C, CHR ''t'']
         else if n = 8 then [CHR 0x5C, CHR ''b'']
         else if n = 12 then [CHR 0x5C, CHR ''f'']
         else if 32 \<le> n \<and> n \<le> 126 then [c]
         else [CHR 0x5C, CHR ''u'', CHR ''0'', CHR ''0'', hex_digit (n div 16), hex_digit (n mod 16)])"

definition json_string :: "string \<Rightarrow> string" where
  "json_string s = CHR 0x22 # concat (map escape_char s) @ [CHR 0x22]"

definition newline_indent :: "nat \<Rightarrow> string" where
  "newline_indent level = CHR 0x0A # replicate (2 * level) CHR '' ''"

fun json_encode :: "nat \<Rightarrow> pyval \<Rightarrow> string"
  and json_items :: "nat \<Rightarrow> pyval list \<Rightarrow> string"
  and json_pairs :: "nat \<Rightarrow> (string \<times> pyval) list \<Rightarrow> string" where
  "json_encode level PyNone = ''null''"
| "json_encode level (PyInt i) = int_repr i"
| "json_encode level (PyFloat x) = float_repr x"
| "json_encode level (PyStr s) = json_string s"
| "json_encode level (PyList xs) =
     (if xs = [] then ''[]''
      else ''['' @ newline_indent (Suc level) @ json_items (Suc level) xs @
           newline_indent level @ '']'')"
| "json_encode level (PyDict kvs) =
     (if kvs = [] then ''{}''
      else ''{'' @ newline_indent (Suc level) @ json_pairs (Suc level) kvs @
           newline_indent level @ ''}'')"
| "json_items level [] = []"
| "json_items level (x # xs) =
     json_encode level x @
     (if xs = [] then [] else '','' @ newline_indent level @ json_items level xs)"
| "json_pairs level [] = []"
| "json_pairs level ((k, v) # kvs) =
     json_string k @ '': '' @ json_encode level v @
     (if kvs = [] then [] else '','' @ newline_indent level @ json_pairs level kvs)"

subsection \<open>Export\<close>

text \<open>
  The file system: the text of every file, and the paths that cannot be opened for
  writing (\<open>open(filename, 'w')\<close> raises \<open>OSError\<close> there; elsewhere it creates or
  truncates the file).
\<close>

record filesystem =
  files :: "(string, string) dict"
  unwritable :: "string list"

text \<open>
  \<open>export_analytics_to_json\<close>. \<open>now1\<close> and \<open>now2\<close> are the two readings of the clock,
  the first for the report's \<open>timestamp\<close>, the second inside \<open>get_usage_statistics\<close>.
  The report is built before the file is opened, so an exception of
  \<open>get_usage_statistics\<close> leaves the file system untouched.
\<close>

definition export_analytics_to_json ::
  "LibraryAnalytics \<Rightarrow> filesystem \<Rightarrow> string \<Rightarrow> datetime \<Rightarrow> datetime \<Rightarrow>
   (error + string) \<times> filesystem" where
  "export_analytics_to_json self fs filename now1 now2 =
     (case get_usage_statistics self now2 of
        Inl e \<Rightarrow> (Inl e, fs)
      | Inr statistics \<Rightarrow>
          (let report =
                 PyDict [(''timestamp'', PyStr (isoformat now1)),
                         (''statistics'', statistics),
                         (''most_popular_books'', PyList (get_most_popular_books self 10)),
                         (''most_active_members'', PyList (get_most_active_members self 10))]
           in if filename \<in> set (unwritable fs) then (Inl OSError, fs)
              else (Inr filename,
                    fs\<lparr> files := dict_setitem (files fs) filename (json_encode 0 report) \<rparr>)))"

subsection \<open>Sequences of calls\<close>

text \<open>
  A caller's calls on one registry: the methods of \<open>LibraryAnalytics\<close>, and
  \<open>return_book\<close> on a registered member. Each call returns a result and leaves a
  registry and a file system.
\<close>

datatype op =
    AddBook book
  | AddMember member
  | ProcessCheckout string string datetime
  | ReturnBook string string
  | GetMostPopularBooks int
  | GetMostActiveMembers int
  | GetBooksByAuthor string
  | GetMemberCheckoutHistory string
  | GetUsageStatistics datetime
  | ExportAnalyticsToJson string datetime datetime

datatype result = Bool bool | Value pyval | Raised error | NotRegistered

record world =
  registry :: LibraryAnalytics
  disk :: filesystem

fun apply_op :: "world \<Rightarrow> op \<Rightarrow> result \<times> world" where
  "apply_op w (AddBook b) =
     (let (ok, self') = add_book (registry w) b in (Bool ok, w\<lparr> registry := self' \<rparr>))"
| "apply_op w (AddMember m) =
     (let (ok, self') = add_member (registry w) m in (Bool ok, w\<lparr> registry := self' \<rparr>))"
| "apply_op w (ProcessCheckout mid bid d) =
     (let (ok, self') = process_checkout (registry w) mid bid d
      in (Bool ok, w\<lparr> registry := self' \<rparr>))"
| "apply_op w (ReturnBook mid bid) =
     (let (r, self') = return_registered (registry w) mid bid
      in (case r of None \<Rightarrow> NotRegistered | Some ok \<Rightarrow> Bool ok, w\<lparr> registry := self' \<rparr>))"
| "apply_op w (GetMostPopularBooks limit) =
     (Value (PyList (get_most_popular_books (registry w) limit)), w)"
| "apply_op w (GetMostActiveMembers limit) =
     (Value (PyList (get_most_active_members (registry w) limit)), w)"
| "apply_op w (GetBooksByAuthor a) =
     (Value (PyList (get_books_by_author (registry w) a)), w)"
| "apply_op w (GetMemberCheckoutHistory mid) =
     (Value (PyList (get_member_checkout_history (registry w) mid)), w)"
| "apply_op w (GetUsageStatistics now) =
     (case get_usage_statistics (registry w) now of
        Inl e \<Rightarrow> (Raised e, w)
      | Inr v \<Rightarrow> (Value v, w))"
| "apply_op w (ExportAnalyticsToJson filename now1 now2) =
     (let (r, fs') = export_analytics_to_json (registry w) (disk w) filename now1 now2
      in (case r of Inl e \<Rightarrow> Raised e | Inr f \<Rightarrow> Value (PyStr f), w\<lparr> disk := fs' \<rparr>))"

fun run :: "world \<Rightarrow> op list \<Rightarrow> result list \<times> world" where
  "run w [] = ([], w)"
| "run w (c # cs) =
     (let (r, w') = apply_op w c; (rs, w'') = run w' cs in (r # rs, w''))"

text \<open>
  The calls of a sequence that are successful checkouts of the book registered under
  \<open>bid\<close>: \<open>process_checkout\<close> with that book id, returning \<open>True\<close>.
\<close>

fun checkout_succeeded :: "string \<Rightarrow> op \<Rightarrow> result \<Rightarrow> bool" where
  "checkout_succeeded bid (ProcessCheckout mid bid' d) r = (bid' = bid \<and> r = Bool True)"
| "checkout_succeeded bid c r = False"

definition successful_checkouts :: "string \<Rightarrow> op list \<Rightarrow> result list \<Rightarrow> nat" where
  "successful_checkouts bid cs rs =
     length (filter (\<lambda>(c, r). checkout_succeeded bid c r) (zip cs rs))"

text \<open>
  The invariant of a book: its counter is the length of its history. \<open>Book\<close> objects
  are built by the caller and handed to \<open>add_book\<close>, so a sequence of calls keeps the
  invariant when the books it adds have it.
\<close>

definition book_inv :: "book \<Rightarrow> bool" where
  "book_inv b = (total_checkouts b = int (length (checkout_history b)))"

definition registry_inv :: "LibraryAnalytics \<Rightarrow> bool" where
  "registry_inv self = list_all book_inv (dict_values (books self))"

fun adds_book_inv :: "op \<Rightarrow> bool" where
  "adds_book_inv (AddBook b) = book_inv b"
| "adds_book_inv c = True"

subsection \<open>The demonstration data of \<open>main\<close>\<close>

text \<open>\<open>datetime(y, m, d)\<close>: midnight of that day.\<close>

definition datetime_ymd :: "nat \<Rightarrow> nat \<Rightarrow> nat \<Rightarrow> datetime" where
  "datetime_ymd y m d =
     \<lparr> year = y, month = m, day = d, hour = 0, minute = 0, second = 0, microsecond = 0 \<rparr>"

definition main_books_data :: "(string \<times> string \<times> string \<times> string) list" where
  "main_books_data =
     [(''B001'', ''The Great Gatsby'', ''F. Scott Fitzgerald'', ''978-0-7432-7356-5''),
      (''B002'', ''1984'', ''George Orwell'', ''978-0-452-28423-4''),
      (''B003'', ''To Kill a Mockingbird'', ''Harper Lee'', ''978-0-06-112008-4''),
      (''B004'', ''Pride and Prejudice'', ''Jane Austen'', ''978-0-14-143951-8''),
      (''B005'', ''The Catcher in the Rye'', ''J.D. Salinger'', ''978-0-316-76948-0'')]"

definition main_members_data :: "(string \<times> string \<times> string) list" where
  "main_members_data =
     [(''M001'', ''Alice Johnson'', ''alice@example.com''),
      (''M002'', ''Bob Smith'', ''bob@example.com''),
      (''M003'', ''Carol Davis'', ''carol@example.com'')]"

definition main_checkouts :: "(string \<times> string \<times> datetime) list" where
  "main_checkouts =
     [(''M001'', ''B001'', datetime_ymd 2025 12 5),
      (''M001'', ''B002'', datetime_ymd 2025 12 10),
      (''M002'', ''B001'', datetime_ymd 2025 12 6),
      (''M002'', ''B003'', datetime_ymd 2025 12 12),
      (''M003'', ''B004'', datetime_ymd 2025 12 8),
      (''M001'', ''B004'', datetime_ymd 2025 12 15)]"

text \<open>
  The three loops of \<open>main\<close>, over any data: every book is built and added, every
  member is built and added, every checkout is processed. \<open>main_analytics\<close> is the
  registry they leave from the data of \<open>main\<close>.
\<close>

definition main_loops ::
  "(string \<times> string \<times> string \<times> string) list \<Rightarrow> (string \<times> string \<times> string) list \<Rightarrow>
   (string \<times> string \<times> datetime) list \<Rightarrow> LibraryAnalytics" where
  "main_loops books_data members_data checkouts =
     (let a0 = LibraryAnalytics_init;
          a1 = foldl (\<lambda>a (bid, t, au, i). snd (add_book a (Book bid t au i))) a0 books_data;
          a2 = foldl (\<lambda>a (mid, n, e). snd (add_member a (Member mid n e))) a1 members_data
      in foldl (\<lambda>a (mid, bid, d). snd (process_checkout a mid bid d)) a2 checkouts)"

definition main_analytics :: LibraryAnalytics where
  "main_analytics = main_loops main_books_data main_members_data main_checkouts"

text \<open>
  A registry of two books and one member, each as its constructor leaves it, for the
  concrete instances below.
\<close>

definition small_library :: LibraryAnalytics where
  "small_library =
     \<lparr> books = [(''B1'', Book ''B1'' ''T1'' ''A1'' ''I1''), (''B2'', Book ''B2'' ''T2'' ''A2'' ''I2'')],
       members = [(''M1'', Member ''M1'' ''N1'' ''E1'')],
       analytics_data = [] \<rparr>"

text \<open>
  Two more registries built by the same loops: four books of which one is checked out
  twice, two once and one never, and forty books of which three are checked out once.
\<close>

definition ranked_library :: LibraryAnalytics where
  "ranked_library =
     main_loops
       [(''B1'', ''T1'', ''A1'', ''I1''), (''B2'', ''T2'', ''A2'', ''I2''),
        (''B3'', ''T3'', ''A3'', ''I3''), (''B4'', ''T4'', ''A4'', ''I4'')]
       [(''M1'', ''N1'', ''E1'')]
       [(''M1'', ''B4'', datetime_ymd 2025 12 5), (''M1'', ''B3'', datetime_ymd 2025 12 6),
        (''M1'', ''B1'', datetime_ymd 2025 12 7), (''M1'', ''B4'', datetime_ymd 2025 12 8)]"

definition forty_book_ids :: "string list" where
  "forty_book_ids =
     [''b00'', ''b01'', ''b02'', ''b03'', ''b04'', ''b05'', ''b06'', ''b07'',
      ''b08'', ''b09'', ''b10'', ''b11'', ''b12'', ''b13'', ''b14'', ''b15'',
      ''b16'', ''b17'', ''b18'', ''b19'', ''b20'', ''b21'', ''b22'', ''b23'',
      ''b24'', ''b25'', ''b26'', ''b27'', ''b28'', ''b29'', ''b30'', ''b31'',
      ''b32'', ''b33'', ''b34'', ''b35'', ''b36'', ''b37'', ''b38'', ''b39'']"

definition forty_books_data :: "(string \<times> string \<times> string \<times> string) list" where
  "forty_books_data = map (\<lambda>bid. (bid, ''T'', ''A'', ''I'')) forty_book_ids"

definition forty_registered :: LibraryAnalytics where
  "forty_registered =
     main_loops forty_books_data [(''M1'', ''N1'', ''E1'')]
       [(''M1'', ''b00'', datetime_ymd 2025 12 5),
        (''M1'', ''b01'', datetime_ymd 2025 12 6),
        (''M1'', ''b02'', datetime_ymd 2025 12 7)]"

section \<open>Rejections\<close>

lemma dict_contains_iff: "dict_contains k d \<longleftrightarrow> k \<in> set (dict_keys d)"
  by (simp add: dict_contains_def dict_keys_def map_of_eq_None_iff)

lemma dict_contains_get: "dict_contains k d \<longleftrightarrow> dict_get d k \<noteq> None"
  by (simp add: dict_contains_def dict_get_def)

text \<open>
  Claim C3. For every registry state, \<open>process_checkout\<close> called with a member id that
  is not a key of \<open>members\<close>, or with a book id that is not a key of \<open>books\<close>, returns
  \<open>False\<close>, and the registry it leaves is the registry it was given: every book, every
  member and both dictionaries are as before.
\<close>

theorem process_checkout_unregistered:
  assumes "mid \<notin> set (dict_keys (members self)) \<or> bid \<notin> set (dict_keys (books self))"
  shows "process_checkout self mid bid checkout_date = (False, self)"
  using assms by (auto simp: process_checkout_def dict_contains_iff)

lemma dict_keys_setitem_present:
  "k \<in> set (dict_keys d) \<Longrightarrow> dict_keys (dict_setitem d k v) = dict_keys d"
  by (induction d) (force simp: dict_keys_def)+

lemma dict_get_setitem:
  "dict_get (dict_setitem d k v) k' = (if k' = k then Some v else dict_get d k')"
  by (induction d) (auto simp: dict_get_def)

lemmas small_defs = small_library_def Book_def Member_def dict_keys_def dict_values_def
  dict_get_def dict_contains_def datetime_ymd_def

theorem process_checkout_unregistered_witness:
  "process_checkout small_library ''M2'' ''B1'' (datetime_ymd 2025 12 5) = (False, small_library) \<and>
   process_checkout small_library ''M1'' ''B3'' (datetime_ymd 2025 12 5) = (False, small_library)"
  using process_checkout_unregistered [of "''M2''" small_library "''B1''" "datetime_ymd 2025 12 5"]
    process_checkout_unregistered [of "''M1''" small_library "''B3''" "datetime_ymd 2025 12 5"]
  by (simp add: small_defs)

text \<open>
  Claim C4. For every registry state, \<open>add_book\<close> with a book whose id is already a
  key of \<open>books\<close> returns \<open>False\<close> and leaves the registry as it was, and so does
  \<open>add_member\<close> with a member whose id is already a key of \<open>members\<close>: the object
  registered under the id is not overwritten.
\<close>

theorem add_duplicate_rejected:
  "(book_id b \<in> set (dict_keys (books self)) \<longrightarrow> add_book self b = (False, self)) \<and>
   (member_id m \<in> set (dict_keys (members self)) \<longrightarrow> add_member self m = (False, self))"
  by (simp add: add_book_def add_member_def dict_contains_iff)

theorem add_duplicate_rejected_witness:
  "add_book small_library (Book ''B2'' ''other title'' ''A'' ''I'') = (False, small_library) \<and>
   add_member small_library (Member ''M1'' ''other name'' ''E'') = (False, small_library)"
  using add_duplicate_rejected [of "Book ''B2'' ''other title'' ''A'' ''I''" small_library
      "Member ''M1'' ''other name'' ''E''"]
  by (simp add: small_defs)

text \<open>
  Claim C5. For every member, \<open>return_book\<close> with an id the member holds returns
  \<open>True\<close> and removes exactly one occurrence of the id from \<open>books_checked_out\<close> (as
  a multiset the list loses one copy of the id and nothing else, and it is one shorter);
  with an id the member does not hold it returns \<open>False\<close> and the member is unchanged.
  Either way the member's checkout history and identity fields are untouched, and
  when the member is a registered one, every book of the registry (counter, history,
  last checkout) is as before.
\<close>

theorem return_book_effect:
  "(bid \<in> set (books_checked_out m) \<longrightarrow>
      fst (return_book m bid) = True \<and>
      mset (books_checked_out (snd (return_book m bid))) = mset (books_checked_out m) - {#bid#} \<and>
      Suc (length (books_checked_out (snd (return_book m bid)))) = length (books_checked_out m)) \<and>
   (bid \<notin> set (books_checked_out m) \<longrightarrow> return_book m bid = (False, m)) \<and>
   member_checkout_history (snd (return_book m bid)) = member_checkout_history m \<and>
   member_id (snd (return_book m bid)) = member_id m \<and>
   name (snd (return_book m bid)) = name m \<and>
   email (snd (return_book m bid)) = email m \<and>
   books (snd (return_registered self mid bid)) = books self"
  by (auto simp: return_book_def return_registered_def length_remove1
      split: option.splits prod.splits dest: length_pos_if_in_set)

theorem return_book_effect_witness:
  "fst (return_book ((Member ''M1'' ''N1'' ''E1'')\<lparr> books_checked_out := [''B1'', ''B2'', ''B1''] \<rparr>) ''B1'') = True \<and>
   length (books_checked_out (snd (return_book
       ((Member ''M1'' ''N1'' ''E1'')\<lparr> books_checked_out := [''B1'', ''B2'', ''B1''] \<rparr>) ''B1''))) = 2 \<and>
   return_book ((Member ''M1'' ''N1'' ''E1'')\<lparr> books_checked_out := [''B2''] \<rparr>) ''B1'' =
     (False, (Member ''M1'' ''N1'' ''E1'')\<lparr> books_checked_out := [''B2''] \<rparr>) \<and>
   books (snd (return_registered small_library ''M1'' ''B1'')) = books small_library"
  using return_book_effect [of "''B1''"
      "(Member ''M1'' ''N1'' ''E1'')\<lparr> books_checked_out := [''B1'', ''B2'', ''B1''] \<rparr>"
      small_library "''M1''"]
    return_book_effect [of "''B1''"
      "(Member ''M1'' ''N1'' ''E1'')\<lparr> books_checked_out := [''B2''] \<rparr>" small_library "''M1''"]
  by (simp add: Member_def)

text \<open>
  Claim C10. When the id occurs in \<open>books_checked_out\<close>, also more than once,
  \<open>return_book\<close> removes its first (earliest appended) occurrence: the ids before it
  and the ids after it, later copies included, stay in their order.
\<close>

theorem return_book_first_occurrence:
  assumes "books_checked_out self = xs @ bid # ys" and "bid \<notin> set xs"
  shows "return_book self bid = (True, self\<lparr> books_checked_out := xs @ ys \<rparr>)"
  using assms by (simp add: return_book_def remove1_append)

theorem return_book_first_occurrence_witness:
  "return_book ((Member ''M1'' ''N1'' ''E1'')\<lparr> books_checked_out := [''B2'', ''B1'', ''B3'', ''B1''] \<rparr>) ''B1'' =
     (True, (Member ''M1'' ''N1'' ''E1'')\<lparr> books_checked_out := [''B2'', ''B3'', ''B1''] \<rparr>)"
  using return_book_first_occurrence [of
      "(Member ''M1'' ''N1'' ''E1'')\<lparr> books_checked_out := [''B2'', ''B1'', ''B3'', ''B1''] \<rparr>"
      "[''B2'']" "''B1''" "[''B3'', ''B1'']"]
  by (simp add: Member_def)

text \<open>
  Claim C9. When \<open>process_checkout\<close> returns \<open>True\<close>, the keys of both dictionaries
  (and their order) and \<open>analytics_data\<close> are unchanged, every member registered under
  another id and every book registered under another id is unchanged, the named member
  differs only in \<open>books_checked_out\<close> and its history (one element appended to each),
  and the named book differs only in its counter, its history and its last checkout.
\<close>

theorem process_checkout_frame:
  assumes "process_checkout self mid bid d = (True, self')"
  shows "dict_keys (members self') = dict_keys (members self) \<and>
         dict_keys (books self') = dict_keys (books self) \<and>
         analytics_data self' = analytics_data self \<and>
         (\<forall>k. k \<noteq> mid \<longrightarrow> dict_get (members self') k = dict_get (members self) k) \<and>
         (\<forall>k. k \<noteq> bid \<longrightarrow> dict_get (books self') k = dict_get (books self) k) \<and>
         (\<exists>m b. dict_get (members self) mid = Some m \<and> dict_get (books self) bid = Some b \<and>
            dict_get (members self') mid =
              Some (m\<lparr> books_checked_out := books_checked_out m @ [book_id b],
                       member_checkout_history := member_checkout_history m @
                         [PyDict [(''book_id'', PyStr (book_id b)),
                                  (''checkout_date'', PyStr (isoformat d))]] \<rparr>) \<and>
            dict_get (books self') bid =
              Some (b\<lparr> total_checkouts := total_checkouts b + 1,
                       checkout_history := checkout_history b @
                         [PyDict [(''member_id'', PyStr (member_id m)),
                                  (''checkout_date'', PyStr (isoformat d))]],
                       last_checkout := Some d \<rparr>))"
proof -
  from assms have reg: "dict_contains mid (members self)" "dict_contains bid (books self)"
    by (auto simp: process_checkout_def split: if_splits)
  then obtain m b where mb: "dict_get (members self) mid = Some m" "dict_get (books self) bid = Some b"
    by (auto simp: dict_contains_def dict_get_def)
  from assms reg mb have self': "self' = self\<lparr> members := dict_setitem (members self) mid (fst (checkout_book m b d)),
                              books := dict_setitem (books self) bid (snd (checkout_book m b d)) \<rparr>"
    by (simp add: process_checkout_def split_def Let_def)
  from reg have keys: "mid \<in> set (dict_keys (members self))" "bid \<in> set (dict_keys (books self))"
    by (simp_all add: dict_contains_iff)
  show ?thesis
    using mb keys
    by (simp add: self' dict_keys_setitem_present dict_get_setitem checkout_book_def record_checkout_def)
qed

theorem process_checkout_frame_witness:
  "fst (process_checkout small_library ''M1'' ''B1'' (datetime_ymd 2025 12 5)) = True \<and>
   dict_keys (books (snd (process_checkout small_library ''M1'' ''B1'' (datetime_ymd 2025 12 5)))) =
     [''B1'', ''B2''] \<and>
   dict_get (books (snd (process_checkout small_library ''M1'' ''B1'' (datetime_ymd 2025 12 5)))) ''B2'' =
     Some (Book ''B2'' ''T2'' ''A2'' ''I2'')"
proof -
  obtain r where r: "process_checkout small_library ''M1'' ''B1'' (datetime_ymd 2025 12 5) = (True, r)"
    by (simp add: process_checkout_def small_defs checkout_book_def record_checkout_def)
  from process_checkout_frame [OF r]
  have "dict_keys (books r) = dict_keys (books small_library)"
    and "dict_get (books r) ''B2'' = dict_get (books small_library) ''B2''"
    by simp_all
  then have k: "dict_keys (books r) = [''B1'', ''B2'']"
    and g: "dict_get (books r) ''B2'' = Some (Book ''B2'' ''T2'' ''A2'' ''I2'')"
    by (simp_all add: small_defs)
  show ?thesis
    unfolding r by (simp add: k g)
qed

section \<open>The registries the loops of \<open>main\<close> build\<close>

lemma dict_setitem_absent: "k \<notin> set (dict_keys d) \<Longrightarrow> dict_setitem d k v = d @ [(k, v)]"
  by (induction d) (auto simp: dict_keys_def)

lemma foldl_add_book:
  "distinct (map fst bd) \<Longrightarrow> \<forall>x\<in>set bd. fst x \<notin> set (dict_keys (books a)) \<Longrightarrow>
   foldl (\<lambda>a (bid, t, au, i). snd (add_book a (Book bid t au i))) a bd =
     a\<lparr> books := books a @ map (\<lambda>(bid, t, au, i). (bid, Book bid t au i)) bd \<rparr>"
proof (induction bd arbitrary: a)
  case Nil
  then show ?case by simp
next
  case (Cons x bd)
  obtain bid t au i where x: "x = (bid, t, au, i)" by (cases x) auto
  have nk: "bid \<notin> set (dict_keys (books a))" using Cons.prems(2) by (simp add: x)
  have step: "snd (add_book a (Book bid t au i)) = a\<lparr> books := books a @ [(bid, Book bid t au i)] \<rparr>"
    using nk by (simp add: add_book_def dict_contains_iff Book_def dict_setitem_absent)
  have "\<forall>y\<in>set bd. fst y \<notin> set (dict_keys (books (a\<lparr> books := books a @ [(bid, Book bid t au i)] \<rparr>)))"
    using Cons.prems by (auto simp: x dict_keys_def)
  moreover have "distinct (map fst bd)" using Cons.prems(1) by simp
  ultimately show ?case using Cons.IH [of "a\<lparr> books := books a @ [(bid, Book bid t au i)] \<rparr>"]
    by (simp add: x step)
qed

lemma foldl_add_member:
  "distinct (map fst md) \<Longrightarrow> \<forall>x\<in>set md. fst x \<notin> set (dict_keys (members a)) \<Longrightarrow>
   foldl (\<lambda>a (mid, n, e). snd (add_member a (Member mid n e))) a md =
     a\<lparr> members := members a @ map (\<lambda>(mid, n, e). (mid, Member mid n e)) md \<rparr>"
proof (induction md arbitrary: a)
  case Nil
  then show ?case by simp
next
  case (Cons x md)
  obtain mid n e where x: "x = (mid, n, e)" by (cases x) auto
  have nk: "mid \<notin> set (dict_keys (members a))" using Cons.prems(2) by (simp add: x)
  have step: "snd (add_member a (Member mid n e)) = a\<lparr> members := members a @ [(mid, Member mid n e)] \<rparr>"
    using nk by (simp add: add_member_def dict_contains_iff Member_def dict_setitem_absent)
  have "\<forall>y\<in>set md. fst y \<notin> set (dict_keys (members (a\<lparr> members := members a @ [(mid, Member mid n e)] \<rparr>)))"
    using Cons.prems by (auto simp: x dict_keys_def)
  moreover have "distinct (map fst md)" using Cons.prems(1) by simp
  ultimately show ?case using Cons.IH [of "a\<lparr> members := members a @ [(mid, Member mid n e)] \<rparr>"]
    by (simp add: x step)
qed

lemma sum_list_setitem:
  "dict_get d k = Some v \<Longrightarrow>
   sum_list (map f (dict_values (dict_setitem d k v'))) =
     sum_list (map f (dict_values d)) - f v + (f v' :: int)"
  by (induction d) (auto simp: dict_get_def dict_values_def)

lemma process_checkout_counts:
  assumes "mid \<in> set (dict_keys (members a))" "bid \<in> set (dict_keys (books a))"
  shows "dict_keys (books (snd (process_checkout a mid bid d))) = dict_keys (books a)"
    and "dict_keys (members (snd (process_checkout a mid bid d))) = dict_keys (members a)"
    and "sum_list (map total_checkouts (dict_values (books (snd (process_checkout a mid bid d))))) =
           sum_list (map total_checkouts (dict_values (books a))) + 1"
proof -
  from assms obtain m b where mb: "dict_get (members a) mid = Some m" "dict_get (books a) bid = Some b"
    by (auto simp: dict_contains_iff [symmetric] dict_contains_get)
  have pc: "snd (process_checkout a mid bid d) =
      a\<lparr> members := dict_setitem (members a) mid (fst (checkout_book m b d)),
         books := dict_setitem (books a) bid (snd (checkout_book m b d)) \<rparr>"
    using assms mb by (simp add: process_checkout_def dict_contains_iff split_beta)
  show "dict_keys (books (snd (process_checkout a mid bid d))) = dict_keys (books a)"
    using assms(2) by (simp add: pc dict_keys_setitem_present)
  show "dict_keys (members (snd (process_checkout a mid bid d))) = dict_keys (members a)"
    using assms(1) by (simp add: pc dict_keys_setitem_present)
  show "sum_list (map total_checkouts (dict_values (books (snd (process_checkout a mid bid d))))) =
           sum_list (map total_checkouts (dict_values (books a))) + 1"
    by (simp add: pc sum_list_setitem [OF mb(2)] checkout_book_def record_checkout_def)
qed

lemma foldl_process_checkout_counts:
  "\<forall>c\<in>set cs. fst c \<in> set (dict_keys (members a)) \<and> fst (snd c) \<in> set (dict_keys (books a)) \<Longrightarrow>
   dict_keys (books (foldl (\<lambda>a (mid, bid, d). snd (process_checkout a mid bid d)) a cs)) =
     dict_keys (books a) \<and>
   dict_keys (members (foldl (\<lambda>a (mid, bid, d). snd (process_checkout a mid bid d)) a cs)) =
     dict_keys (members a) \<and>
   sum_list (map total_checkouts
     (dict_values (books (foldl (\<lambda>a (mid, bid, d). snd (process_checkout a mid bid d)) a cs)))) =
     sum_list (map total_checkouts (dict_values (books a))) + int (length cs)"
proof (induction cs arbitrary: a)
  case Nil
  then show ?case by simp
next
  case (Cons c cs)
  obtain mid bid d where c: "c = (mid, bid, d)" by (cases c) auto
  have reg: "mid \<in> set (dict_keys (members a))" "bid \<in> set (dict_keys (books a))"
    using Cons.prems by (simp_all add: c)
  note pc = process_checkout_counts [OF reg, of d]
  have "\<forall>c\<in>set cs. fst c \<in> set (dict_keys (members (snd (process_checkout a mid bid d)))) \<and>
      fst (snd c) \<in> set (dict_keys (books (snd (process_checkout a mid bid d))))"
    using Cons.prems by (simp add: pc)
  from Cons.IH [OF this] show ?case by (simp add: c pc)
qed

lemma main_loops_counts:
  assumes "distinct (map fst bd)" "distinct (map fst md)"
    and "\<forall>c\<in>set cs. fst c \<in> fst ` set md \<and> fst (snd c) \<in> fst ` set bd"
  shows "dict_keys (books (main_loops bd md cs)) = map fst bd"
    and "dict_keys (members (main_loops bd md cs)) = map fst md"
    and "sum_list (map total_checkouts (dict_values (books (main_loops bd md cs)))) = int (length cs)"
proof -
  let ?a1 = "foldl (\<lambda>a (bid, t, au, i). snd (add_book a (Book bid t au i))) LibraryAnalytics_init bd"
  let ?a2 = "foldl (\<lambda>a (mid, n, e). snd (add_member a (Member mid n e))) ?a1 md"
  have a1: "?a1 = LibraryAnalytics_init\<lparr> books := map (\<lambda>(bid, t, au, i). (bid, Book bid t au i)) bd \<rparr>"
    using foldl_add_book [OF assms(1), of LibraryAnalytics_init]
    by (simp add: LibraryAnalytics_init_def dict_keys_def)
  have a2: "?a2 = LibraryAnalytics_init\<lparr> books := map (\<lambda>(bid, t, au, i). (bid, Book bid t au i)) bd,
      members := map (\<lambda>(mid, n, e). (mid, Member mid n e)) md \<rparr>"
    unfolding a1 using foldl_add_member [OF assms(2),
        of "LibraryAnalytics_init\<lparr> books := map (\<lambda>(bid, t, au, i). (bid, Book bid t au i)) bd \<rparr>"]
    by (simp add: LibraryAnalytics_init_def dict_keys_def)
  have kb: "dict_keys (books ?a2) = map fst bd"
    by (simp add: a2 dict_keys_def split_beta cong: map_cong)
  have km: "dict_keys (members ?a2) = map fst md"
    by (simp add: a2 dict_keys_def split_beta cong: map_cong)
  have s0: "sum_list (map total_checkouts (dict_values (books ?a2))) = 0"
    unfolding a2 by (simp add: dict_values_def comp_def split_beta Book_def)
  have "\<forall>c\<in>set cs. fst c \<in> set (dict_keys (members ?a2)) \<and> fst (snd c) \<in> set (dict_keys (books ?a2))"
    using assms(3) by (simp add: kb km)
  from foldl_process_checkout_counts [OF this]
  show "dict_keys (books (main_loops bd md cs)) = map fst bd"
    and "dict_keys (members (main_loops bd md cs)) = map fst md"
    and "sum_list (map total_checkouts (dict_values (books (main_loops bd md cs)))) = int (length cs)"
    by (simp_all add: main_loops_def Let_def kb km s0)
qed

lemma length_dict_keys: "length (dict_keys d) = length d"
  by (simp add: dict_keys_def)

lemma process_checkout_registered:
  "dict_get (members a) mid = Some m \<Longrightarrow> dict_get (books a) bid = Some b \<Longrightarrow>
   process_checkout a mid bid d =
     (True, a\<lparr> members := dict_setitem (members a) mid (fst (checkout_book m b d)),
               books := dict_setitem (books a) bid (snd (checkout_book m b d)) \<rparr>)"
  by (simp add: process_checkout_def dict_contains_def dict_get_def split_beta)

lemma ranked_library_added:
  "foldl (\<lambda>a (bid, t, au, i). snd (add_book a (Book bid t au i))) LibraryAnalytics_init
       [(''B1'', ''T1'', ''A1'', ''I1''), (''B2'', ''T2'', ''A2'', ''I2''),
        (''B3'', ''T3'', ''A3'', ''I3''), (''B4'', ''T4'', ''A4'', ''I4'')] =
   \<lparr> books = [(''B1'', Book ''B1'' ''T1'' ''A1'' ''I1''), (''B2'', Book ''B2'' ''T2'' ''A2'' ''I2''),
                (''B3'', Book ''B3'' ''T3'' ''A3'' ''I3''), (''B4'', Book ''B4'' ''T4'' ''A4'' ''I4'')],
      members = [], analytics_data = [] \<rparr>"
  by (simp add: LibraryAnalytics_init_def add_book_def Book_def dict_contains_def)

lemma ranked_library_popular:
  "map book_id (most_popular ranked_library 3) = [''B4'', ''B1'', ''B3'']"
  unfolding ranked_library_def main_loops_def Let_def ranked_library_added
  by (simp add: add_member_def process_checkout_registered checkout_book_def record_checkout_def
      Book_def Member_def dict_contains_def dict_get_def dict_values_def
      most_popular_def sorted_reverse_def slice_to_def)


lemma forty_ids: "map fst forty_books_data = forty_book_ids"
  by (simp add: forty_books_data_def comp_def)

lemma forty_ids_distinct: "distinct (map fst forty_books_data)"
  unfolding forty_ids by (simp add: forty_book_ids_def)

lemma forty_registered_counts:
  "length (books forty_registered) = 40"
  "length (members forty_registered) = 1"
  "sum_list (map total_checkouts (dict_values (books forty_registered))) = 3"
proof -
  have c: "\<forall>c\<in>set [(''M1'', ''b00'', datetime_ymd 2025 12 5),
        (''M1'', ''b01'', datetime_ymd 2025 12 6),
        (''M1'', ''b02'', datetime_ymd 2025 12 7)].
      fst c \<in> fst ` set [(''M1'', ''N1'', ''E1'')] \<and> fst (snd c) \<in> fst ` set forty_books_data"
    by (simp add: image_set forty_ids) (simp add: forty_book_ids_def)
  have d: "distinct (map fst [(''M1'', ''N1'', ''E1'')])" by simp
  note m = main_loops_counts [OF forty_ids_distinct d c, folded forty_registered_def]
  show "length (books forty_registered) = 40"
    using arg_cong [OF m(1), of length] by (simp add: length_dict_keys forty_books_data_def forty_book_ids_def)
  show "length (members forty_registered) = 1"
    using arg_cong [OF m(2), of length] by (simp add: length_dict_keys)
  show "sum_list (map total_checkouts (dict_values (books forty_registered))) = 3"
    using m(3) by simp
qed

section \<open>Rankings\<close>

lemma sorted_reverse_desc: "sorted_wrt (\<lambda>a b. key b \<le> key a) (sorted_reverse key xs)"
proof -
  have "sorted (map (\<lambda>x. - key x) (sort_key (\<lambda>x. - key x) xs))"
    by (rule sorted_sort_key)
  then show ?thesis
    by (simp add: sorted_reverse_def sorted_map)
qed

lemma sorted_reverse_stable:
  "filter (\<lambda>x. key x = c) (sorted_reverse key xs) = filter (\<lambda>x. key x = c) xs"
  using sort_key_stable [of "\<lambda>x. - key x" "- c" xs] by (simp add: sorted_reverse_def)

lemma length_sorted_reverse: "length (sorted_reverse key xs) = length xs"
  by (simp add: sorted_reverse_def)

lemma prefix_slice_to: "prefix (slice_to xs k) xs"
  by (simp add: slice_to_def take_is_prefix)

lemma prefix_filter: "prefix xs ys \<Longrightarrow> prefix (filter P xs) (filter P ys)"
  by (auto simp: prefix_def)

lemma prefix_sorted_wrt: "prefix xs ys \<Longrightarrow> sorted_wrt R ys \<Longrightarrow> sorted_wrt R xs"
  by (auto simp: prefix_def sorted_wrt_append)

text \<open>
  Claim C2. The books of a registry have one ranking: the registered books, each as
  often as it is registered, in descending order of \<open>total_checkouts\<close>, the books of
  any one count in the order of their registration. For every registry and every
  limit \<open>k\<close>, \<open>get_most_popular_books\<close> returns the serialized books of an initial
  part of this ranking, so every book it leaves out has at most the count of every
  book it returns; when \<open>k\<close> is a number of entries (\<open>0 \<le> k\<close>) the initial part is
  the first \<open>k\<close> books of the ranking, which are \<open>min k n\<close> of the \<open>n\<close> registered
  books and so at most \<open>k\<close>.
\<close>

theorem most_popular_ranking:
  "\<exists>ranking.
     mset ranking = mset (dict_values (books self)) \<and>
     sorted_wrt (\<lambda>a b. total_checkouts b \<le> total_checkouts a) ranking \<and>
     (\<forall>c. filter (\<lambda>b. total_checkouts b = c) ranking =
          filter (\<lambda>b. total_checkouts b = c) (dict_values (books self))) \<and>
     prefix (most_popular self k) ranking \<and>
     get_most_popular_books self k = map book_to_dict (most_popular self k) \<and>
     (\<forall>b\<in>set (dict_values (books self)). b \<notin> set (most_popular self k) \<longrightarrow>
        (\<forall>a\<in>set (most_popular self k). total_checkouts b \<le> total_checkouts a)) \<and>
     (0 \<le> k \<longrightarrow>
        most_popular self k = take (nat k) ranking \<and>
        length (get_most_popular_books self k) = min (nat k) (length (books self)) \<and>
        int (length (get_most_popular_books self k)) \<le> k)"
proof -
  let ?s = "sorted_reverse total_checkouts (dict_values (books self))"
  have m: "mset ?s = mset (dict_values (books self))"
    by (simp add: sorted_reverse_def)
  have p: "prefix (most_popular self k) ?s"
    by (simp add: most_popular_def prefix_slice_to)
  have len: "length ?s = length (books self)"
    by (simp add: length_sorted_reverse dict_values_def)
  have out: "total_checkouts b \<le> total_checkouts a"
    if b: "b \<in> set (dict_values (books self))" "b \<notin> set (most_popular self k)"
      and a: "a \<in> set (most_popular self k)" for a b
  proof -
    from p obtain rest where r: "?s = most_popular self k @ rest" by (auto simp: prefix_def)
    have "b \<in> set ?s" using b(1) m by (metis mset_eq_setD)
    then have "b \<in> set rest" using b(2) r by auto
    moreover have "sorted_wrt (\<lambda>a b. total_checkouts b \<le> total_checkouts a) (most_popular self k @ rest)"
      using sorted_reverse_desc [of total_checkouts "dict_values (books self)"] r by simp
    ultimately show ?thesis using a by (auto simp: sorted_wrt_append)
  qed
  have k: "most_popular self k = take (nat k) ?s \<and>
        length (get_most_popular_books self k) = min (nat k) (length (books self)) \<and>
        int (length (get_most_popular_books self k)) \<le> k" if "0 \<le> k"
    using that by (auto simp: get_most_popular_books_def most_popular_def slice_to_def len min_def)
  show ?thesis
    by (rule exI [of _ ?s])
      (intro conjI allI ballI impI m sorted_reverse_desc sorted_reverse_stable p k out;
        (assumption | simp add: get_most_popular_books_def))
qed

text \<open>
  On the registry of four books with counts 1, 0, 1 and 2, a limit of 3 gives the
  book checked out twice, then the two checked out once in the order they were
  registered, and leaves out the book never checked out.
\<close>

theorem most_popular_ranking_witness:
  "(0::int) \<le> 3 \<and>
   length (get_most_popular_books ranked_library 3) = 3 \<and>
   map book_id (most_popular ranked_library 3) = [''B4'', ''B1'', ''B3''] \<and>
   map (\<lambda>b. (book_id b, total_checkouts b)) (dict_values (books ranked_library)) =
     [(''B1'', 1), (''B2'', 0), (''B3'', 1), (''B4'', 2)]"
proof -
  have n: "length (books ranked_library) = 4"
    unfolding ranked_library_def main_loops_def Let_def ranked_library_added
    by (simp add: add_member_def process_checkout_registered checkout_book_def record_checkout_def
        Book_def Member_def dict_contains_def dict_get_def)
  have a: "length (get_most_popular_books ranked_library 3) = 3"
    using most_popular_ranking [of ranked_library 3] by (auto simp: n)
  have b: "map (\<lambda>b. (book_id b, total_checkouts b)) (dict_values (books ranked_library)) =
     [(''B1'', 1), (''B2'', 0), (''B3'', 1), (''B4'', 2)]"
    unfolding ranked_library_def main_loops_def Let_def ranked_library_added
    by (simp add: add_member_def process_checkout_registered checkout_book_def record_checkout_def
        Book_def Member_def dict_contains_def dict_get_def dict_values_def)
  show ?thesis using a b ranked_library_popular by simp
qed

section \<open>Statistics\<close>

lemma floor_rat_numeral [simp]:
  "\<lfloor>numeral a / numeral b :: rat\<rfloor> = numeral a div numeral b"
  using floor_divide_of_int_eq [of "numeral a" "numeral b", where ?'a = rat] by simp

lemma ceiling_rat_numeral [simp]:
  "\<lceil>numeral a / numeral b :: rat\<rceil> = - (- numeral a div numeral b)"
  using ceiling_divide_eq_div [of "numeral a" "numeral b", where ?'a = rat] by simp

lemma bit_length_numeral [simp]:
  "bit_length (numeral n) = Suc (bit_length (numeral n div 2))"
  by (subst bit_length.simps) simp

lemma bit_length_0 [simp]: "bit_length 0 = 0"
  by (subst bit_length.simps) simp

lemma bit_length_1 [simp]: "bit_length (Suc 0) = Suc 0"
  by (subst bit_length.simps) simp

subsection \<open>\<open>binary64\<close> rounds to a nearest float\<close>

lemma two_powi_eq: "two_powi e = 2 powi e"
  by (simp add: two_powi_def power_int_def inverse_eq_divide power_one_over)

lemma bit_length_pos: "0 < n \<Longrightarrow> 0 < bit_length n"
  by (subst bit_length.simps) simp

lemma bit_length_bounds: "0 < n \<Longrightarrow> 2 ^ (bit_length n - 1) \<le> n \<and> n < 2 ^ bit_length n"
proof (induction n rule: bit_length.induct)
  case (1 n)
  show ?case
  proof (cases "n div 2 = 0")
    case True
    with 1(2) have "n = 1" by presburger
    then show ?thesis by simp
  next
    case False
    then have pos: "0 < n div 2" by simp
    from 1(1) pos 1(2) have ih: "2 ^ (bit_length (n div 2) - 1) \<le> n div 2"
      "n div 2 < 2 ^ bit_length (n div 2)" by auto
    have bl: "bit_length n = Suc (bit_length (n div 2))"
      using 1(2) by (subst bit_length.simps) simp
    obtain k where k: "bit_length (n div 2) = Suc k"
      using bit_length_pos [OF pos] by (cases "bit_length (n div 2)") auto
    from ih k have a: "2 * 2 ^ k \<le> 2 * (n div 2)" by simp
    from ih k have b: "n div 2 + 1 \<le> 2 * 2 ^ k" by simp
    have d: "2 * (n div 2) \<le> n" "n < 2 * (n div 2) + 2" by presburger+
    have "2 * 2 ^ k \<le> n" using a d by linarith
    moreover have "n < 2 * (2 * 2 ^ k)" using b d by linarith
    ultimately show ?thesis by (simp add: bl k)
  qed
qed

lemma two_powi_nat: "two_powi (int k) = 2 ^ k"
  by (simp add: two_powi_def)

lemma two_powi_neg: "two_powi (- int k) = 1 / 2 ^ k"
  by (cases k) (simp_all add: two_powi_def nat_add_distrib)

lemma ilog2_bounds:
  assumes "0 < a"
  shows "two_powi (ilog2 a) \<le> a \<and> a < two_powi (ilog2 a + 1)"
proof (cases "1 \<le> a")
  case True
  define n where "n = nat \<lfloor>a\<rfloor>"
  have fl: "1 \<le> \<lfloor>a\<rfloor>" using True by linarith
  then have n: "0 < n" by (simp add: n_def)
  have ni: "int n = \<lfloor>a\<rfloor>" using fl by (simp add: n_def)
  obtain k where k: "bit_length n = Suc k"
    using bit_length_pos [OF n] by (cases "bit_length n") auto
  from bit_length_bounds [OF n] k have b: "2 ^ k \<le> n" "Suc n \<le> 2 * 2 ^ k" by simp_all
  have il: "ilog2 a = int k" by (simp add: ilog2_def True n_def [symmetric] k)
  have "int (2 ^ k) \<le> int n" using b(1) by (rule of_nat_mono)
  then have "2 ^ k \<le> \<lfloor>a\<rfloor>" using ni by simp
  then have "(of_int (2 ^ k) :: rat) \<le> a" by (simp only: le_floor_iff)
  then have lo: "(2::rat) ^ k \<le> a" by simp
  have "int (Suc n) \<le> int (2 * 2 ^ k)" using b(2) by (rule of_nat_mono)
  then have "\<lfloor>a\<rfloor> < 2 * 2 ^ k" using ni by simp
  then have "a < of_int (2 * 2 ^ k)" by (simp only: floor_less_iff)
  then have hi: "a < 2 * 2 ^ k" by simp
  have "ilog2 a + 1 = int (Suc k)" by (simp add: il)
  then show ?thesis using lo hi by (simp only: il two_powi_nat) simp
next
  case False
  then have a1: "a < 1" by simp
  define c where "c = \<lceil>1 / a\<rceil>"
  define m where "m = nat c - 1"
  have inv: "1 < 1 / a" using assms a1 by simp
  then have c2: "2 \<le> c" unfolding c_def by linarith
  then have m: "0 < m" by (simp add: m_def)
  have mi: "int m = c - 1" using c2 by (simp add: m_def)
  obtain k where k: "bit_length m = Suc k"
    using bit_length_pos [OF m] by (cases "bit_length m") auto
  from bit_length_bounds [OF m] k have b: "2 ^ k \<le> m" "Suc m \<le> 2 * 2 ^ k" by simp_all
  have il: "ilog2 a = - int (Suc k)"
    using k by (simp add: ilog2_def False c_def [symmetric] m_def)
  have "int (Suc m) \<le> int (2 * 2 ^ k)" using b(2) by (rule of_nat_mono)
  then have "\<lceil>1 / a\<rceil> \<le> 2 * 2 ^ k" using mi by (simp add: c_def)
  then have "1 / a \<le> of_int (2 * 2 ^ k)" by (simp only: ceiling_le_iff)
  then have "1 / a \<le> 2 * 2 ^ k" by simp
  then have lo: "1 / (2 * 2 ^ k) \<le> a" using assms by (simp add: field_simps)
  have "int (2 ^ k) \<le> int m" using b(1) by (rule of_nat_mono)
  then have "2 ^ k < \<lceil>1 / a\<rceil>" using mi by (simp add: c_def)
  then have "(of_int (2 ^ k) :: rat) < 1 / a" by (simp only: less_ceiling_iff)
  then have "(2::rat) ^ k < 1 / a" by simp
  then have hi: "a < 1 / 2 ^ k" using assms by (simp add: field_simps)
  have "ilog2 a + 1 = - int k" by (simp add: il)
  then show ?thesis using lo hi by (simp only: il two_powi_neg) simp
qed

lemma round_half_even_cases:
  "round_half_even t = \<lfloor>t\<rfloor> \<and> t - of_int \<lfloor>t\<rfloor> \<le> 1 / 2 \<or>
   round_half_even t = \<lfloor>t\<rfloor> + 1 \<and> 1 / 2 \<le> t - of_int \<lfloor>t\<rfloor>"
  by (auto simp: round_half_even_def Let_def)

lemma round_half_even_nearest: "\<bar>of_int (round_half_even t) - t\<bar> \<le> \<bar>of_int j - t\<bar>"
proof -
  have f: "of_int \<lfloor>t\<rfloor> \<le> t" "t < of_int \<lfloor>t\<rfloor> + 1" by linarith+
  have "j \<le> \<lfloor>t\<rfloor> \<or> \<lfloor>t\<rfloor> + 1 \<le> j" by linarith
  then show ?thesis
  proof
    assume "j \<le> \<lfloor>t\<rfloor>"
    then have "(of_int j :: rat) \<le> of_int \<lfloor>t\<rfloor>" by simp
    then show ?thesis using f round_half_even_cases [of t] by auto
  next
    assume "\<lfloor>t\<rfloor> + 1 \<le> j"
    then have "(of_int (\<lfloor>t\<rfloor> + 1) :: rat) \<le> of_int j" by (simp only: of_int_le_iff)
    then have "(of_int \<lfloor>t\<rfloor> :: rat) + 1 \<le> of_int j" by simp
    then show ?thesis using f round_half_even_cases [of t] by auto
  qed
qed

lemma round_half_even_half: "\<bar>of_int (round_half_even t) - t\<bar> \<le> 1 / 2"
proof -
  have f: "of_int \<lfloor>t\<rfloor> \<le> t" "t < of_int \<lfloor>t\<rfloor> + 1" by linarith+
  then show ?thesis using round_half_even_cases [of t] by auto
qed

lemma round_half_even_unique:
  assumes "\<bar>t - of_int m\<bar> < 1 / 2"
  shows "round_half_even t = m"
proof -
  have "\<bar>(of_int (round_half_even t) :: rat) - of_int m\<bar> < 1"
    using round_half_even_half [of t] assms by linarith
  then have "\<bar>(of_int (round_half_even t - m) :: rat)\<bar> < 1" by simp
  then have "\<bar>round_half_even t - m\<bar> < 1"
    by (simp only: of_int_abs [symmetric] of_int_less_1_iff)
  then show ?thesis by simp
qed

lemma round_half_even_ge: "of_int N \<le> t \<Longrightarrow> N \<le> round_half_even t"
proof -
  assume "of_int N \<le> t"
  then have "N \<le> \<lfloor>t\<rfloor>" by (simp add: le_floor_iff)
  then show ?thesis using round_half_even_cases [of t] by auto
qed

lemma round_half_even_le: "t \<le> of_int N \<Longrightarrow> round_half_even t \<le> N"
proof -
  assume a: "t \<le> of_int N"
  have le: "\<lfloor>t\<rfloor> \<le> N" using a by (simp add: floor_le_iff)
  have "\<lfloor>t\<rfloor> = N \<Longrightarrow> t - of_int \<lfloor>t\<rfloor> < 1 / 2" using a by linarith
  then show ?thesis using le round_half_even_cases [of t] by (cases "\<lfloor>t\<rfloor> = N") auto
qed

lemma two_powi_pos: "0 < two_powi e"
  by (simp add: two_powi_eq zero_less_power_int)

lemma two_powi_add: "two_powi (a + b) = two_powi a * two_powi b"
  by (simp add: two_powi_eq power_int_add)

lemma two_powi_numeral: "two_powi (numeral k) = 2 ^ numeral k"
  by (simp add: two_powi_def)

lemma two_powi_1: "two_powi 1 = 2"
  by (simp add: two_powi_def)

lemma two_powi_mono: "a \<le> b \<Longrightarrow> two_powi a \<le> two_powi b"
  by (simp add: two_powi_eq power_int_increasing)

lemma two_powi_strict_mono: "a < b \<Longrightarrow> two_powi a < two_powi b"
  by (simp add: two_powi_eq power_int_strict_increasing)

lemma two_powi_less_cancel: "two_powi a < two_powi b \<Longrightarrow> a < b"
  using two_powi_mono [of b a] by (cases "a < b") auto

lemma two_powi_le_cancel: "two_powi a \<le> two_powi b \<Longrightarrow> a \<le> b"
  using two_powi_strict_mono [of b a] by (cases "a \<le> b") auto

lemma binary64_mantissa:
  assumes a: "0 < a" and e: "e = max (ilog2 a - 52) (- 1074)"
    and n: "n = round_half_even (a / two_powi e)"
  shows "0 \<le> n" and "n \<le> 2 ^ 53"
    and "e = ilog2 a - 52 \<Longrightarrow> 2 ^ 52 \<le> n"
    and "e = ilog2 a - 52 \<Longrightarrow> of_int (2 ^ 52) * two_powi e = two_powi (ilog2 a)"
proof -
  let ?p = "two_powi e"
  have p: "0 < ?p" by (rule two_powi_pos)
  have "(of_int 0 :: rat) \<le> a / ?p" using a p by simp
  then show "0 \<le> n" unfolding n by (rule round_half_even_ge)
  have "ilog2 a + 1 \<le> e + 53" using e by simp
  then have "two_powi (ilog2 a + 1) \<le> two_powi (e + 53)" by (rule two_powi_mono)
  also have "\<dots> = ?p * 2 ^ 53" by (simp add: two_powi_add two_powi_numeral)
  finally have "a < ?p * 2 ^ 53" using ilog2_bounds [OF a] by simp
  then have "a / ?p \<le> of_int (2 ^ 53)" using p by (simp add: field_simps)
  then show "n \<le> 2 ^ 53" unfolding n by (rule round_half_even_le)
  have g: "of_int (2 ^ 52) * two_powi e = two_powi (ilog2 a)" if "e = ilog2 a - 52"
  proof -
    have "ilog2 a = e + 52" using that by simp
    then show ?thesis by (simp add: two_powi_add two_powi_numeral)
  qed
  show "of_int (2 ^ 52) * two_powi e = two_powi (ilog2 a)" if "e = ilog2 a - 52"
    using g that .
  show "2 ^ 52 \<le> n" if "e = ilog2 a - 52"
  proof -
    have "of_int (2 ^ 52) * ?p \<le> a" using g [OF that] ilog2_bounds [OF a] by simp
    then have "of_int (2 ^ 52) \<le> a / ?p" using p by (simp add: field_simps)
    then show ?thesis unfolding n by (rule round_half_even_ge)
  qed
qed

lemma binary64_core_repr:
  assumes a: "0 < a" and e: "e = max (ilog2 a - 52) (- 1074)"
    and n: "n = round_half_even (a / two_powi e)"
    and y: "of_int n * two_powi e < two_powi 1024"
  shows "is_binary64 (of_int n * two_powi e)"
proof -
  let ?p = "two_powi e"
  have p: "0 < ?p" by (rule two_powi_pos)
  note m = binary64_mantissa [OF a e n]
  show ?thesis
  proof (cases "n < 2 ^ 53")
    case True
    have "e \<le> 971"
    proof (rule ccontr)
      assume "\<not> e \<le> 971"
      then have big: "972 \<le> e" by simp
      then have ee: "e = ilog2 a - 52" using e by linarith
      have "(2::rat) ^ 52 \<le> of_int n" using m(3) [OF ee] by (metis of_int_le_iff of_int_numeral of_int_power)
      then have "2 ^ 52 * two_powi 972 \<le> of_int n * ?p"
        using two_powi_mono [OF big] p two_powi_pos [of 972] by (intro mult_mono) auto
      moreover have "2 ^ 52 * two_powi 972 = two_powi (972 + 52)" by (simp only: two_powi_add two_powi_numeral) simp
      ultimately show False using y by simp
    qed
    moreover have "- 1074 \<le> e" using e by simp
    moreover have "\<bar>n\<bar> < 2 ^ 53" using True m(1) by simp
    ultimately show ?thesis unfolding is_binary64_def by blast
  next
    case False
    then have n53: "n = 2 ^ 53" using m(2) by simp
    have "two_powi (e + 53) = of_int n * ?p" by (simp add: n53 two_powi_add two_powi_numeral two_powi_1)
    then have "two_powi (e + 53) < two_powi 1024" using y by simp
    then have "e + 53 < 1024" by (rule two_powi_less_cancel)
    then have e1: "e + 1 \<le> 971" by simp
    have "of_int n * ?p = of_int (2 ^ 52) * two_powi (e + 1)"
      by (simp add: n53 two_powi_add two_powi_numeral two_powi_1)
    moreover have "- 1074 \<le> e + 1" using e by simp
    moreover have "\<bar>2 ^ 52 :: int\<bar> < 2 ^ 53" by simp
    ultimately show ?thesis unfolding is_binary64_def using e1 by blast
  qed
qed

lemma binary64_core_nearest:
  assumes a: "0 < a" and e: "e = max (ilog2 a - 52) (- 1074)"
    and n: "n = round_half_even (a / two_powi e)"
    and z: "is_binary64 z"
  shows "\<bar>of_int n * two_powi e - a\<bar> \<le> \<bar>z - a\<bar>"
proof -
  let ?p = "two_powi e"
  let ?t = "a / ?p"
  have p: "0 < ?p" by (rule two_powi_pos)
  have at: "a = ?t * ?p" using p by simp
  have scale: "\<bar>of_int j * ?p - a\<bar> = \<bar>of_int j - ?t\<bar> * ?p" for j
  proof -
    have "of_int j * ?p - a = (of_int j - ?t) * ?p" using p by (simp add: field_simps)
    then show ?thesis using p by (simp add: abs_mult)
  qed
  have near: "\<bar>of_int n * ?p - a\<bar> \<le> \<bar>of_int j * ?p - a\<bar>" for j
    unfolding scale n using round_half_even_nearest [of ?t j] p by (simp add: mult_right_mono)
  note m = binary64_mantissa [OF a e n]
  from z obtain m' k where zk: "z = of_int m' * two_powi k" "\<bar>m'\<bar> < 2 ^ 53" "- 1074 \<le> k" "k \<le> 971"
    unfolding is_binary64_def by blast
  show ?thesis
  proof (cases "e \<le> k")
    case True
    define d where "d = nat (k - e)"
    have "k = e + int d" using True by (simp add: d_def)
    then have "two_powi k = ?p * 2 ^ d" by (simp add: two_powi_add two_powi_nat)
    then have "z = of_int (m' * 2 ^ d) * ?p" by (simp add: zk(1))
    then show ?thesis using near [of "m' * 2 ^ d"] by simp
  next
    case False
    then have ee: "e = ilog2 a - 52" using e zk(3) by linarith
    let ?g = "two_powi (ilog2 a)"
    have g: "of_int (2 ^ 52) * ?p = ?g" by (rule m(4) [OF ee])
    have ga: "?g \<le> a" using ilog2_bounds [OF a] by simp
    have "k + 53 \<le> ilog2 a" using False ee by simp
    then have kk: "two_powi (k + 53) \<le> ?g" by (rule two_powi_mono)
    have "\<bar>of_int m' :: rat\<bar> < 2 ^ 53" using zk(2) by (metis of_int_abs of_int_less_iff of_int_numeral of_int_power)
    then have "\<bar>z\<bar> < 2 ^ 53 * two_powi k"
      using two_powi_pos [of k] by (simp add: zk(1) abs_mult)
    also have "\<dots> = two_powi (k + 53)" by (simp add: two_powi_add two_powi_numeral)
    finally have zlt: "\<bar>z\<bar> < ?g" using kk by simp
    have "\<bar>of_int n * ?p - a\<bar> \<le> \<bar>?g - a\<bar>" using near [of "2 ^ 52"] g by simp
    then show ?thesis using zlt ga by linarith
  qed
qed

lemma is_binary64_0: "is_binary64 0"
  unfolding is_binary64_def by (rule exI [of _ 0], rule exI [of _ 0]) simp

lemma is_binary64_minus: "is_binary64 (- z) = is_binary64 z"
proof -
  have "is_binary64 (- z)" if "is_binary64 z" for z
  proof -
    from that obtain m e where "z = of_int m * two_powi e" "\<bar>m\<bar> < 2 ^ 53" "- 1074 \<le> e" "e \<le> 971"
      unfolding is_binary64_def by blast
    then have "- z = of_int (- m) * two_powi e \<and> \<bar>- m\<bar> < 2 ^ 53 \<and> - 1074 \<le> e \<and> e \<le> 971"
      by simp
    then show ?thesis unfolding is_binary64_def by blast
  qed
  from this [of z] this [of "- z"] show ?thesis by auto
qed

lemma binary64_nearest:
  assumes "binary64 x = Some y"
  shows "nearest_binary64 x y"
proof (cases "x = 0")
  case True
  then have "y = 0" using assms by (simp add: binary64_def)
  then show ?thesis using True by (simp add: nearest_binary64_def is_binary64_0)
next
  case False
  define a where "a = \<bar>x\<bar>"
  define e where "e = max (ilog2 a - 52) (- 1074)"
  define n where "n = round_half_even (a / two_powi e)"
  have a: "0 < a" using False by (simp add: a_def)
  from assms False have lt: "of_int n * two_powi e < two_powi 1024"
    and y: "y = (if x < 0 then - (of_int n * two_powi e) else of_int n * two_powi e)"
    by (auto simp: binary64_def Let_def a_def e_def n_def split: if_splits)
  have r: "is_binary64 (of_int n * two_powi e)"
    using a e_def n_def lt by (rule binary64_core_repr)
  have nr: "\<bar>of_int n * two_powi e - a\<bar> \<le> \<bar>z - a\<bar>" if "is_binary64 z" for z
    using a e_def n_def that by (rule binary64_core_nearest)
  show ?thesis
  proof (cases "x < 0")
    case True
    then have xa: "x = - a" by (simp add: a_def)
    have "\<bar>y - x\<bar> \<le> \<bar>z - x\<bar>" if "is_binary64 z" for z
    proof -
      have "is_binary64 (- z)" using that by (simp add: is_binary64_minus)
      from nr [OF this] show ?thesis using True by (simp add: y xa)
    qed
    then show ?thesis using r True by (simp add: nearest_binary64_def y is_binary64_minus)
  next
    case False
    then have xa: "x = a" by (simp add: a_def)
    show ?thesis using r nr False by (simp add: nearest_binary64_def y xa)
  qed
qed

lemma binary64_overflow:
  assumes "binary64 x = None"
  shows "two_powi 1023 \<le> \<bar>x\<bar>"
proof -
  define a where "a = \<bar>x\<bar>"
  define e where "e = max (ilog2 a - 52) (- 1074)"
  define n where "n = round_half_even (a / two_powi e)"
  from assms have x: "x \<noteq> 0" by (auto simp: binary64_def)
  then have a: "0 < a" by (simp add: a_def)
  from assms x have ge: "two_powi 1024 \<le> of_int n * two_powi e"
    by (auto simp: binary64_def Let_def a_def e_def n_def split: if_splits)
  note m = binary64_mantissa [OF a e_def n_def]
  have "(of_int n :: rat) \<le> 2 ^ 53" using m(2) by (metis of_int_le_iff of_int_numeral of_int_power)
  then have "of_int n * two_powi e \<le> 2 ^ 53 * two_powi e"
    using two_powi_pos [of e] by (simp add: mult_right_mono)
  also have "\<dots> = two_powi (e + 53)" by (simp add: two_powi_add two_powi_numeral)
  finally have "two_powi 1024 \<le> two_powi (e + 53)" using ge by simp
  then have "1024 \<le> e + 53" by (rule two_powi_le_cancel)
  then have "e = ilog2 a - 52" "1023 \<le> ilog2 a" using e_def by linarith+
  then have "two_powi 1023 \<le> two_powi (ilog2 a)" by (intro two_powi_mono)
  then show ?thesis using ilog2_bounds [OF a] by (simp add: a_def)
qed

lemmas float_defs = int_truediv_def float_round_def binary64_def ilog2_def two_powi_def
  round_half_even_def Let_def

lemma q40: "int_truediv 3 40 = Inr (5404319552844595 / 72057594037927936)"
  by (simp add: float_defs)

lemma r40: "float_round (5404319552844595 / 72057594037927936) 2 = Inr (1261007895663739 / 18014398509481984)"
  by (simp add: float_defs)

lemma q65: "int_truediv 6 5 = Inr (5404319552844595 / 4503599627370496)"
  by (simp add: float_defs)

lemma r65: "float_round (5404319552844595 / 4503599627370496) 2 = Inr (5404319552844595 / 4503599627370496)"
  by (simp add: float_defs)

lemma is_binary64_two_powi_1022: "is_binary64 (two_powi 1022)"
proof -
  have "two_powi 1022 = two_powi (51 + 971)" by simp
  also have "\<dots> = of_int (2 ^ 51) * two_powi 971"
    by (simp only: two_powi_add two_powi_numeral) simp
  finally show ?thesis unfolding is_binary64_def by (intro exI [of _ "2 ^ 51"] exI [of _ 971]) simp
qed

lemma nearest_binary64_bound:
  assumes "nearest_binary64 q f" "is_binary64 M" "\<bar>q\<bar> \<le> M"
  shows "\<bar>f\<bar> \<le> M"
proof -
  have "is_binary64 (- M)" using assms(2) by (simp add: is_binary64_minus)
  then have "\<bar>f - q\<bar> \<le> \<bar>M - q\<bar>" "\<bar>f - q\<bar> \<le> \<bar>- M - q\<bar>"
    using assms(1,2) by (simp_all add: nearest_binary64_def)
  then show ?thesis using assms(3) by linarith
qed

lemma round_two_decimals:
  fixes f :: rat
  shows "\<bar>of_int (round_half_even (f * 100)) / 100 - f\<bar> \<le> 1 / 200"
proof -
  let ?m = "of_int (round_half_even (f * 100)) :: rat"
  have h: "\<bar>?m - f * 100\<bar> \<le> 1 / 2" by (rule round_half_even_half)
  have a: "\<bar>(?m / 100 - f) * 100\<bar> = \<bar>?m / 100 - f\<bar> * 100" by (simp only: abs_mult abs_numeral)
  have b: "(?m / 100 - f) * 100 = ?m - f * 100" by (simp add: algebra_simps)
  have "\<bar>?m / 100 - f\<bar> * 100 = \<bar>?m - f * 100\<bar>" by (rule a [unfolded b, symmetric])
  with h show ?thesis by linarith
qed

lemma round_two_decimals_exact:
  fixes f q :: rat
  assumes "\<bar>q * 100 - of_int (round_half_even (q * 100))\<bar> + \<bar>f - q\<bar> * 100 < 1 / 2"
  shows "round_half_even (f * 100) = round_half_even (q * 100)"
proof -
  have a: "\<bar>(f - q) * 100\<bar> = \<bar>f - q\<bar> * 100" by (simp only: abs_mult abs_numeral)
  have b: "(f - q) * 100 = f * 100 - q * 100" by (simp add: algebra_simps)
  have "\<bar>f - q\<bar> * 100 = \<bar>f * 100 - q * 100\<bar>" by (rule a [unfolded b, symmetric])
  with assms have "\<bar>f * 100 - of_int (round_half_even (q * 100))\<bar> < 1 / 2" by linarith
  then show ?thesis by (rule round_half_even_unique)
qed

lemma get_usage_statistics_nonempty:
  "books self \<noteq> [] \<Longrightarrow>
      get_usage_statistics self utcnow =
        (case binary64 (rat_of_int (sum_list (map total_checkouts (dict_values (books self)))) /
                        rat_of_int (int (length (books self)))) of
           None \<Rightarrow> Inl OverflowError
         | Some q \<Rightarrow>
             (case binary64 (rat_of_int (round_half_even (q * 100)) / 100) of
                None \<Rightarrow> Inl OverflowError
              | Some r \<Rightarrow>
                  Inr (PyDict [(''total_books'', PyInt (int (length (books self)))),
                               (''total_members'', PyInt (int (length (members self)))),
                               (''total_checkouts'',
                                  PyInt (sum_list (map total_checkouts (dict_values (books self))))),
                               (''average_checkouts_per_book'', PyFloat r),
                               (''generated_at'', PyStr (isoformat utcnow))])))"
  by (auto simp: get_usage_statistics_def int_truediv_def float_round_def dict_values_def Let_def
      split: option.splits sum.splits)

lemma get_usage_statistics_empty:
  "books self = [] \<Longrightarrow>
      get_usage_statistics self utcnow =
        Inr (PyDict [(''total_books'', PyInt 0),
                     (''total_members'', PyInt (int (length (members self)))),
                     (''total_checkouts'', PyInt 0),
                     (''average_checkouts_per_book'', PyInt 0),
                     (''generated_at'', PyStr (isoformat utcnow))])"
  by (simp add: get_usage_statistics_def dict_values_def)

lemma main_analytics_counts:
  "length (books main_analytics) = 5"
  "length (members main_analytics) = 3"
  "sum_list (map total_checkouts (dict_values (books main_analytics))) = 6"
proof -
  have c: "\<forall>c\<in>set main_checkouts.
      fst c \<in> fst ` set main_members_data \<and> fst (snd c) \<in> fst ` set main_books_data"
    by (simp add: main_checkouts_def main_members_data_def main_books_data_def)
  have b: "distinct (map fst main_books_data)" by (simp add: main_books_data_def)
  have d: "distinct (map fst main_members_data)" by (simp add: main_members_data_def)
  note m = main_loops_counts [OF b d c, folded main_analytics_def]
  show "length (books main_analytics) = 5"
    using arg_cong [OF m(1), of length] by (simp add: length_dict_keys main_books_data_def)
  show "length (members main_analytics) = 3"
    using arg_cong [OF m(2), of length] by (simp add: length_dict_keys main_members_data_def)
  show "sum_list (map total_checkouts (dict_values (books main_analytics))) = 6"
    using m(3) by (simp add: main_checkouts_def)
qed

lemma main_analytics_statistics:
  "get_usage_statistics main_analytics utcnow =
     Inr (PyDict [(''total_books'', PyInt 5), (''total_members'', PyInt 3),
                  (''total_checkouts'', PyInt 6),
                  (''average_checkouts_per_book'', PyFloat (5404319552844595 / 4503599627370496)),
                  (''generated_at'', PyStr (isoformat utcnow))])"
  unfolding get_usage_statistics_def main_analytics_counts
  by (simp add: q65 r65)

lemma forty_registered_statistics:
  "get_usage_statistics forty_registered utcnow =
     Inr (PyDict [(''total_books'', PyInt 40), (''total_members'', PyInt 1),
                  (''total_checkouts'', PyInt 3),
                  (''average_checkouts_per_book'', PyFloat (1261007895663739 / 18014398509481984)),
                  (''generated_at'', PyStr (isoformat utcnow))])"
  unfolding get_usage_statistics_def forty_registered_counts
  by (simp add: q40 r40)

text \<open>
  Claim C6, as the source has it. After forty books are registered and three of them
  checked out once, the quotient is \<open>3/40 = 0.075\<close>, exactly halfway between \<open>0.07\<close>
  and \<open>0.08\<close>; rounded to two decimals, halves up or halves to even, it is \<open>0.08\<close>.
  The float nearest to \<open>3/40\<close> lies below \<open>0.075\<close>, and the source returns the float
  nearest to \<open>0.07\<close>, which is more than \<open>0.005\<close> away from \<open>0.08\<close>.
\<close>

theorem usage_statistics_average_counterexample:
  "get_usage_statistics forty_registered (datetime_ymd 2025 12 31) =
     Inr (PyDict [(''total_books'', PyInt 40), (''total_members'', PyInt 1),
                  (''total_checkouts'', PyInt 3),
                  (''average_checkouts_per_book'', PyFloat (1261007895663739 / 18014398509481984)),
                  (''generated_at'', PyStr (isoformat (datetime_ymd 2025 12 31)))]) \<and>
   rat_of_int (round_half_even (3 / 40 * 100)) / 100 = 8 / 100 \<and>
   rat_of_int \<lfloor>3 / 40 * 100 + 1 / 2 :: rat\<rfloor> / 100 = 8 / 100 \<and>
   \<bar>1261007895663739 / 18014398509481984 - 7 / 100 :: rat\<bar> < 1 / 10 ^ 17 \<and>
   1 / 200 < \<bar>1261007895663739 / 18014398509481984 - 8 / 100 :: rat\<bar>"
proof -
  have d: "rat_of_int (round_half_even (3 / 40 * 100)) / 100 = 8 / 100"
    by (simp add: round_half_even_def Let_def)
  have e: "rat_of_int \<lfloor>3 / 40 * 100 + 1 / 2 :: rat\<rfloor> / 100 = 8 / 100"
    by simp
  have c: "\<bar>1261007895663739 / 18014398509481984 - 7 / 100 :: rat\<bar> < 1 / 10 ^ 17"
    by simp
  have f: "1 / 200 < \<bar>1261007895663739 / 18014398509481984 - 8 / 100 :: rat\<bar>"
    by simp
  from forty_registered_statistics d e c f show ?thesis
    by (intro conjI)
qed

text \<open>
  Claim C6, amended. On a registry with no books \<open>get_usage_statistics\<close> returns
  \<open>total_checkouts = 0\<close> and \<open>average_checkouts_per_book = 0\<close> (the integer). With at
  least one book, let \<open>q\<close> be the sum of all \<open>total_checkouts\<close> divided by the number
  of books. The call raises \<open>OverflowError\<close>, which it does only when
  \<open>\<bar>q\<bar> > 2 ^ 1022\<close>, or it returns the sum as \<open>total_checkouts\<close> and an average \<open>r\<close>
  with: \<open>f\<close> is a float nearest to \<open>q\<close>; \<open>d\<close> is \<open>f\<close> rounded to two decimals, halves to
  even, so \<open>d\<close> is within \<open>0.005 + \<bar>f - q\<bar>\<close> of \<open>q\<close>; \<open>r\<close> is a float nearest to \<open>d\<close>.
  The two-decimal number \<open>d\<close> is \<open>q\<close> rounded to two decimals whenever \<open>q\<close> is farther
  from the midpoint between two-decimal numbers than \<open>f\<close> is from \<open>q\<close>.
\<close>

theorem usage_statistics_average:
  "(books self = [] \<longrightarrow>
      get_usage_statistics self utcnow =
        Inr (PyDict [(''total_books'', PyInt 0),
                     (''total_members'', PyInt (int (length (members self)))),
                     (''total_checkouts'', PyInt 0),
                     (''average_checkouts_per_book'', PyInt 0),
                     (''generated_at'', PyStr (isoformat utcnow))])) \<and>
   (books self \<noteq> [] \<longrightarrow>
      (let total = sum_list (map total_checkouts (dict_values (books self)));
           q = rat_of_int total / rat_of_int (int (length (books self)))
       in (get_usage_statistics self utcnow = Inl OverflowError \<and> two_powi 1022 < \<bar>q\<bar>) \<or>
          (\<exists>f d r.
              nearest_binary64 q f \<and>
              d = rat_of_int (round_half_even (f * 100)) / 100 \<and>
              nearest_binary64 d r \<and>
              \<bar>d - q\<bar> \<le> 1 / 200 + \<bar>f - q\<bar> \<and>
              (\<bar>q * 100 - rat_of_int (round_half_even (q * 100))\<bar> + \<bar>f - q\<bar> * 100 < 1 / 2 \<longrightarrow>
                 d = rat_of_int (round_half_even (q * 100)) / 100) \<and>
              get_usage_statistics self utcnow =
                Inr (PyDict [(''total_books'', PyInt (int (length (books self)))),
                             (''total_members'', PyInt (int (length (members self)))),
                             (''total_checkouts'', PyInt total),
                             (''average_checkouts_per_book'', PyFloat r),
                             (''generated_at'', PyStr (isoformat utcnow))]))))"
proof (intro conjI impI)
  assume "books self = []"
  then show "get_usage_statistics self utcnow =
        Inr (PyDict [(''total_books'', PyInt 0),
                     (''total_members'', PyInt (int (length (members self)))),
                     (''total_checkouts'', PyInt 0),
                     (''average_checkouts_per_book'', PyInt 0),
                     (''generated_at'', PyStr (isoformat utcnow))])"
    by (rule get_usage_statistics_empty)
next
  assume ne: "books self \<noteq> []"
  define total where "total = sum_list (map total_checkouts (dict_values (books self)))"
  define q where "q = rat_of_int total / rat_of_int (int (length (books self)))"
  note g = get_usage_statistics_nonempty [OF ne, of utcnow, folded total_def, folded q_def]
  have big: "two_powi 1022 < two_powi 1023" by (rule two_powi_strict_mono) simp
  have "(get_usage_statistics self utcnow = Inl OverflowError \<and> two_powi 1022 < \<bar>q\<bar>) \<or>
          (\<exists>f d r.
              nearest_binary64 q f \<and>
              d = rat_of_int (round_half_even (f * 100)) / 100 \<and>
              nearest_binary64 d r \<and>
              \<bar>d - q\<bar> \<le> 1 / 200 + \<bar>f - q\<bar> \<and>
              (\<bar>q * 100 - rat_of_int (round_half_even (q * 100))\<bar> + \<bar>f - q\<bar> * 100 < 1 / 2 \<longrightarrow>
                 d = rat_of_int (round_half_even (q * 100)) / 100) \<and>
              get_usage_statistics self utcnow =
                Inr (PyDict [(''total_books'', PyInt (int (length (books self)))),
                             (''total_members'', PyInt (int (length (members self)))),
                             (''total_checkouts'', PyInt total),
                             (''average_checkouts_per_book'', PyFloat r),
                             (''generated_at'', PyStr (isoformat utcnow))]))"
  proof (cases "binary64 q")
    case None
    then have "two_powi 1023 \<le> \<bar>q\<bar>" by (rule binary64_overflow)
    then show ?thesis using g None big by simp
  next
    case (Some f)
    define d where "d = rat_of_int (round_half_even (f * 100)) / 100"
    have nf: "nearest_binary64 q f" using Some by (rule binary64_nearest)
    have df: "\<bar>d - f\<bar> \<le> 1 / 200" unfolding d_def by (rule round_two_decimals)
    have ex: "\<bar>q * 100 - rat_of_int (round_half_even (q * 100))\<bar> + \<bar>f - q\<bar> * 100 < 1 / 2 \<longrightarrow>
                 d = rat_of_int (round_half_even (q * 100)) / 100"
    proof
      assume "\<bar>q * 100 - rat_of_int (round_half_even (q * 100))\<bar> + \<bar>f - q\<bar> * 100 < 1 / 2"
      then have "round_half_even (f * 100) = round_half_even (q * 100)"
        by (rule round_two_decimals_exact)
      then show "d = rat_of_int (round_half_even (q * 100)) / 100" by (simp add: d_def)
    qed
    have dq: "\<bar>d - q\<bar> \<le> 1 / 200 + \<bar>f - q\<bar>" using df by linarith
    show ?thesis
    proof (cases "binary64 d")
      case None
      then have dbig: "two_powi 1023 \<le> \<bar>d\<bar>" by (rule binary64_overflow)
      have "two_powi 1022 < \<bar>q\<bar>"
      proof (rule ccontr)
        assume "\<not> two_powi 1022 < \<bar>q\<bar>"
        then have "\<bar>q\<bar> \<le> two_powi 1022" by simp
        with nf is_binary64_two_powi_1022 have "\<bar>f\<bar> \<le> two_powi 1022"
          by (rule nearest_binary64_bound)
        then have "\<bar>d\<bar> \<le> two_powi 1022 + 1 / 200" using df by linarith
        moreover have "two_powi 1023 = 2 * two_powi 1022"
          using two_powi_add [of 1 1022] by (simp add: two_powi_1)
        moreover have "1 \<le> two_powi 1022" using two_powi_mono [of 0 1022] by (simp add: two_powi_def)
        ultimately show False using dbig by linarith
      qed
      then show ?thesis using g Some None by (simp add: d_def)
    next
      case (Some r)
      then have nr: "nearest_binary64 d r" by (rule binary64_nearest)
      have res: "get_usage_statistics self utcnow =
                Inr (PyDict [(''total_books'', PyInt (int (length (books self)))),
                             (''total_members'', PyInt (int (length (members self)))),
                             (''total_checkouts'', PyInt total),
                             (''average_checkouts_per_book'', PyFloat r),
                             (''generated_at'', PyStr (isoformat utcnow))])"
        using g \<open>binary64 q = Some f\<close> Some by (simp add: d_def)
      show ?thesis
        by (rule disjI2, rule exI [of _ f], rule exI [of _ d], rule exI [of _ r])
          (intro conjI nf nr dq ex res d_def)
    qed
  qed
  then show "let total = sum_list (map total_checkouts (dict_values (books self)));
           q = rat_of_int total / rat_of_int (int (length (books self)))
       in (get_usage_statistics self utcnow = Inl OverflowError \<and> two_powi 1022 < \<bar>q\<bar>) \<or>
          (\<exists>f d r.
              nearest_binary64 q f \<and>
              d = rat_of_int (round_half_even (f * 100)) / 100 \<and>
              nearest_binary64 d r \<and>
              \<bar>d - q\<bar> \<le> 1 / 200 + \<bar>f - q\<bar> \<and>
              (\<bar>q * 100 - rat_of_int (round_half_even (q * 100))\<bar> + \<bar>f - q\<bar> * 100 < 1 / 2 \<longrightarrow>
                 d = rat_of_int (round_half_even (q * 100)) / 100) \<and>
              get_usage_statistics self utcnow =
                Inr (PyDict [(''total_books'', PyInt (int (length (books self)))),
                             (''total_members'', PyInt (int (length (members self)))),
                             (''total_checkouts'', PyInt total),
                             (''average_checkouts_per_book'', PyFloat r),
                             (''generated_at'', PyStr (isoformat utcnow))]))"
    unfolding Let_def total_def q_def .
qed

text \<open>
  The empty registry, and the registry of \<open>main\<close>: six checkouts of five books, an
  average of \<open>1.2\<close>.
\<close>

theorem usage_statistics_average_witness:
  "get_usage_statistics LibraryAnalytics_init (datetime_ymd 2025 12 31) =
     Inr (PyDict [(''total_books'', PyInt 0), (''total_members'', PyInt 0),
                  (''total_checkouts'', PyInt 0), (''average_checkouts_per_book'', PyInt 0),
                  (''generated_at'', PyStr (isoformat (datetime_ymd 2025 12 31)))]) \<and>
   books main_analytics \<noteq> [] \<and>
   get_usage_statistics main_analytics (datetime_ymd 2025 12 31) =
     Inr (PyDict [(''total_books'', PyInt 5), (''total_members'', PyInt 3),
                  (''total_checkouts'', PyInt 6),
                  (''average_checkouts_per_book'', PyFloat (5404319552844595 / 4503599627370496)),
                  (''generated_at'', PyStr (isoformat (datetime_ymd 2025 12 31)))]) \<and>
   \<bar>5404319552844595 / 4503599627370496 - 6 / 5 :: rat\<bar> < 1 / 10 ^ 15"
proof -
  have a: "get_usage_statistics LibraryAnalytics_init (datetime_ymd 2025 12 31) =
     Inr (PyDict [(''total_books'', PyInt 0), (''total_members'', PyInt 0),
                  (''total_checkouts'', PyInt 0), (''average_checkouts_per_book'', PyInt 0),
                  (''generated_at'', PyStr (isoformat (datetime_ymd 2025 12 31)))])"
    using usage_statistics_average [of LibraryAnalytics_init "datetime_ymd 2025 12 31"]
    by (simp add: LibraryAnalytics_init_def)
  have ne: "books main_analytics \<noteq> []"
    using main_analytics_counts(1) by auto
  have "get_usage_statistics main_analytics (datetime_ymd 2025 12 31) \<noteq> Inl OverflowError"
    by (simp add: main_analytics_statistics)
  with usage_statistics_average [of main_analytics "datetime_ymd 2025 12 31"] ne
  obtain r where r: "get_usage_statistics main_analytics (datetime_ymd 2025 12 31) =
      Inr (PyDict [(''total_books'', PyInt (int (length (books main_analytics)))),
                   (''total_members'', PyInt (int (length (members main_analytics)))),
                   (''total_checkouts'',
                      PyInt (sum_list (map total_checkouts (dict_values (books main_analytics))))),
                   (''average_checkouts_per_book'', PyFloat r),
                   (''generated_at'', PyStr (isoformat (datetime_ymd 2025 12 31)))])"
    unfolding Let_def by blast
  have "r = 5404319552844595 / 4503599627370496"
    using r by (simp add: main_analytics_statistics)
  with r have b: "get_usage_statistics main_analytics (datetime_ymd 2025 12 31) =
     Inr (PyDict [(''total_books'', PyInt 5), (''total_members'', PyInt 3),
                  (''total_checkouts'', PyInt 6),
                  (''average_checkouts_per_book'', PyFloat (5404319552844595 / 4503599627370496)),
                  (''generated_at'', PyStr (isoformat (datetime_ymd 2025 12 31)))])"
    by (simp add: main_analytics_counts)
  have c: "\<bar>5404319552844595 / 4503599627370496 - 6 / 5 :: rat\<bar> < 1 / 10 ^ 15" by simp
  from a ne b c show ?thesis by (intro conjI)
qed

section \<open>Sequences of calls: the counter and its invariant\<close>

lemma apply_op_total:
  assumes "dict_get (books (registry w)) bid = Some b"
  shows "\<exists>b'. dict_get (books (registry (snd (apply_op w c)))) bid = Some b' \<and>
           total_checkouts b' =
             total_checkouts b + (if checkout_succeeded bid c (fst (apply_op w c)) then 1 else 0)"
proof (cases c)
  case (AddBook x)
  with assms show ?thesis
    by (auto simp: add_book_def dict_get_setitem dict_contains_get split: if_splits)
next
  case (AddMember x)
  with assms show ?thesis
    by (auto simp: add_member_def split: if_splits)
next
  case (ProcessCheckout mid bid' d)
  with assms show ?thesis
    by (auto simp: process_checkout_def dict_get_setitem checkout_book_def record_checkout_def
        dict_contains_get split: if_splits option.splits)
next
  case (ReturnBook mid bid')
  with assms show ?thesis
    by (auto simp: return_registered_def split: option.splits prod.splits)
next
  case (GetUsageStatistics now)
  with assms show ?thesis
    by (auto split: sum.splits)
next
  case (ExportAnalyticsToJson f n1 n2)
  with assms show ?thesis
    by (auto split: prod.splits sum.splits)
qed (use assms in auto)

lemma run_total:
  assumes "dict_get (books (registry w)) bid = Some b"
  shows "\<exists>b'. dict_get (books (registry (snd (run w cs)))) bid = Some b' \<and>
           total_checkouts b' =
             total_checkouts b + int (successful_checkouts bid cs (fst (run w cs)))"
  using assms
proof (induction cs arbitrary: w b)
  case Nil
  then show ?case by (simp add: successful_checkouts_def)
next
  case (Cons c cs)
  from apply_op_total [OF Cons.prems, of c]
  obtain b1 where b1: "dict_get (books (registry (snd (apply_op w c)))) bid = Some b1"
    and t1: "total_checkouts b1 =
      total_checkouts b + (if checkout_succeeded bid c (fst (apply_op w c)) then 1 else 0)"
    by blast
  from Cons.IH [OF b1]
  obtain b2 where b2: "dict_get (books (registry (snd (run (snd (apply_op w c)) cs)))) bid = Some b2"
    and t2: "total_checkouts b2 = total_checkouts b1 +
      int (successful_checkouts bid cs (fst (run (snd (apply_op w c)) cs)))"
    by blast
  show ?case
    using b2 t1 t2 by (simp add: split_def Let_def successful_checkouts_def)
qed


text \<open>
  Claim C1. A book is registered as its constructor leaves it (counter 0). After any
  sequence of calls on the registry, whichever members they name, the book's
  \<open>total_checkouts\<close> is the number of calls of \<open>process_checkout\<close> with its id that
  returned \<open>True\<close>.
\<close>

theorem total_checkouts_counts_successful_checkouts:
  assumes "add_book self (Book bid t a i) = (True, self0)"
  shows "map_option total_checkouts
           (dict_get (books (registry (snd (run \<lparr> registry = self0, disk = fs \<rparr> cs)))) bid) =
         Some (int (successful_checkouts bid cs (fst (run \<lparr> registry = self0, disk = fs \<rparr> cs))))"
proof -
  from assms have "dict_get (books (registry \<lparr> registry = self0, disk = fs \<rparr>)) bid =
      Some (Book bid t a i)"
    by (auto simp: add_book_def dict_get_setitem Book_def split: if_splits)
  from run_total [OF this, of cs] show ?thesis
    by (auto simp: Book_def)
qed

theorem total_checkouts_counts_successful_checkouts_witness:
  "map_option total_checkouts
     (dict_get (books (registry (snd (run
        \<lparr> registry = \<lparr> books = [(''B1'', Book ''B1'' ''T1'' ''A1'' ''I1'')],
                        members = [(''M1'', Member ''M1'' ''N1'' ''E1'')], analytics_data = [] \<rparr>,
          disk = \<lparr> files = [], unwritable = [] \<rparr> \<rparr>
        [ProcessCheckout ''M1'' ''B1'' (datetime_ymd 2025 12 5),
         ProcessCheckout ''M2'' ''B1'' (datetime_ymd 2025 12 6),
         ReturnBook ''M1'' ''B1'',
         ProcessCheckout ''M1'' ''B1'' (datetime_ymd 2025 12 7)])))) ''B1'') =
   Some (int (successful_checkouts ''B1''
        [ProcessCheckout ''M1'' ''B1'' (datetime_ymd 2025 12 5),
         ProcessCheckout ''M2'' ''B1'' (datetime_ymd 2025 12 6),
         ReturnBook ''M1'' ''B1'',
         ProcessCheckout ''M1'' ''B1'' (datetime_ymd 2025 12 7)]
        (fst (run
        \<lparr> registry = \<lparr> books = [(''B1'', Book ''B1'' ''T1'' ''A1'' ''I1'')],
                        members = [(''M1'', Member ''M1'' ''N1'' ''E1'')], analytics_data = [] \<rparr>,
          disk = \<lparr> files = [], unwritable = [] \<rparr> \<rparr>
        [ProcessCheckout ''M1'' ''B1'' (datetime_ymd 2025 12 5),
         ProcessCheckout ''M2'' ''B1'' (datetime_ymd 2025 12 6),
         ReturnBook ''M1'' ''B1'',
         ProcessCheckout ''M1'' ''B1'' (datetime_ymd 2025 12 7)]))))"
proof -
  have h: "add_book \<lparr> books = [], members = [(''M1'', Member ''M1'' ''N1'' ''E1'')],
                       analytics_data = [] \<rparr> (Book ''B1'' ''T1'' ''A1'' ''I1'') =
      (True, \<lparr> books = [(''B1'', Book ''B1'' ''T1'' ''A1'' ''I1'')],
               members = [(''M1'', Member ''M1'' ''N1'' ''E1'')], analytics_data = [] \<rparr>)"
    by (simp add: add_book_def dict_contains_def Book_def)
  show ?thesis
    by (rule total_checkouts_counts_successful_checkouts [OF h])
qed

lemma set_dict_values_setitem:
  "set (dict_values (dict_setitem d k v)) \<subseteq> insert v (set (dict_values d))"
  by (induction d) (force simp: dict_values_def split: if_splits)+

lemma dict_get_in_values: "dict_get d k = Some v \<Longrightarrow> v \<in> set (dict_values d)"
  by (auto simp: dict_get_def dict_values_def dest!: map_of_SomeD intro: rev_image_eqI)

lemma book_inv_record_checkout: "book_inv b \<Longrightarrow> book_inv (record_checkout b mid d)"
  by (simp add: book_inv_def record_checkout_def)

lemma registry_inv_setitem:
  "registry_inv self \<Longrightarrow> book_inv b \<Longrightarrow>
   registry_inv (self\<lparr> books := dict_setitem (books self) k b \<rparr>)"
  using set_dict_values_setitem [of "books self" k b]
  by (auto simp: registry_inv_def list_all_iff)

lemma apply_op_inv:
  assumes "registry_inv (registry w)" and "adds_book_inv c"
  shows "registry_inv (registry (snd (apply_op w c)))"
proof (cases c)
  case (AddBook x)
  with assms show ?thesis
    using registry_inv_setitem [of "registry w" x "book_id x"]
    by (auto simp: add_book_def split: if_splits)
next
  case (AddMember x)
  with assms show ?thesis
    by (auto simp: add_member_def registry_inv_def split: if_splits)
next
  case (ProcessCheckout mid bid d)
  show ?thesis
  proof (cases "process_checkout (registry w) mid bid d")
    case (Pair ok self')
    show ?thesis
    proof (cases ok)
      case True
      with Pair have pc: "process_checkout (registry w) mid bid d = (True, self')"
        by simp
      then obtain m b where m: "dict_get (members (registry w)) mid = Some m"
        and b: "dict_get (books (registry w)) bid = Some b"
        by (auto simp: process_checkout_def dict_contains_get split: if_splits)
      from pc m b have self': "self' = (registry w)\<lparr>
          members := dict_setitem (members (registry w)) mid (fst (checkout_book m b d)),
          books := dict_setitem (books (registry w)) bid (record_checkout b (member_id m) d) \<rparr>"
        by (auto simp: process_checkout_def checkout_book_def split: if_splits)
      from b assms(1) have "book_inv b"
        by (auto simp: registry_inv_def list_all_iff dest: dict_get_in_values)
      then have "book_inv (record_checkout b (member_id m) d)"
        by (rule book_inv_record_checkout)
      with assms(1) have "registry_inv self'"
        using set_dict_values_setitem [of "books (registry w)" bid "record_checkout b (member_id m) d"]
        by (auto simp: self' registry_inv_def list_all_iff)
      with ProcessCheckout Pair show ?thesis by simp
    next
      case False
      with Pair have "self' = registry w"
        by (auto simp: process_checkout_def checkout_book_def split: if_splits option.splits)
      with ProcessCheckout Pair assms show ?thesis by simp
    qed
  qed
next
  case (ReturnBook mid bid)
  with assms show ?thesis
    by (auto simp: return_registered_def registry_inv_def split: option.splits prod.splits)
next
  case (GetUsageStatistics now)
  with assms show ?thesis
    by (auto split: sum.splits)
next
  case (ExportAnalyticsToJson f n1 n2)
  with assms show ?thesis
    by (auto split: prod.splits sum.splits)
qed (use assms in auto)

lemma run_inv:
  "registry_inv (registry w) \<Longrightarrow> list_all adds_book_inv cs \<Longrightarrow>
   registry_inv (registry (snd (run w cs)))"
proof (induction cs arbitrary: w)
  case Nil
  then show ?case by simp
next
  case (Cons c cs)
  from Cons.prems have "registry_inv (registry (snd (apply_op w c)))"
    by (auto intro: apply_op_inv)
  with Cons.prems have "registry_inv (registry (snd (run (snd (apply_op w c)) cs)))"
    by (auto intro: Cons.IH)
  then show ?case
    by (simp add: split_def Let_def)
qed

text \<open>
  Claim C8. A book as \<open>Book\<close> builds it has \<open>total_checkouts\<close> equal to the length of
  its \<open>checkout_history\<close>, and \<open>record_checkout\<close> keeps the equality. When every
  book of the registry has it, and every book a sequence of calls adds has it, every
  book of the registry has it after the sequence: registration, checkout, return, the
  queries and the export preserve it.
\<close>

theorem counter_equals_history_length:
  "book_inv (Book bid t a i) \<and>
   (book_inv b \<longrightarrow> book_inv (record_checkout b mid d)) \<and>
   (registry_inv (registry w) \<and> list_all adds_book_inv cs \<longrightarrow>
      registry_inv (registry (snd (run w cs))))"
  using book_inv_record_checkout [of b mid d] run_inv [of w cs]
  by (simp add: book_inv_def Book_def)

theorem counter_equals_history_length_witness:
  "registry_inv (registry (snd (run
     \<lparr> registry = LibraryAnalytics_init, disk = \<lparr> files = [], unwritable = [] \<rparr> \<rparr>
     [AddBook (Book ''B1'' ''T1'' ''A1'' ''I1''),
      AddMember (Member ''M1'' ''N1'' ''E1''),
      ProcessCheckout ''M1'' ''B1'' (datetime_ymd 2025 12 5),
      AddBook (record_checkout (Book ''B2'' ''T2'' ''A2'' ''I2'') ''M1'' (datetime_ymd 2025 12 6)),
      ReturnBook ''M1'' ''B1'',
      GetMostPopularBooks 10,
      GetUsageStatistics (datetime_ymd 2025 12 31),
      ExportAnalyticsToJson ''report.json'' (datetime_ymd 2025 12 31) (datetime_ymd 2025 12 31)])))"
proof -
  have inv0: "registry_inv (registry
      \<lparr> registry = LibraryAnalytics_init, disk = \<lparr> files = [], unwritable = [] \<rparr> \<rparr>)"
    by (simp add: registry_inv_def LibraryAnalytics_init_def dict_values_def)
  have adds: "list_all adds_book_inv
     [AddBook (Book ''B1'' ''T1'' ''A1'' ''I1''),
      AddMember (Member ''M1'' ''N1'' ''E1''),
      ProcessCheckout ''M1'' ''B1'' (datetime_ymd 2025 12 5),
      AddBook (record_checkout (Book ''B2'' ''T2'' ''A2'' ''I2'') ''M1'' (datetime_ymd 2025 12 6)),
      ReturnBook ''M1'' ''B1'',
      GetMostPopularBooks 10,
      GetUsageStatistics (datetime_ymd 2025 12 31),
      ExportAnalyticsToJson ''report.json'' (datetime_ymd 2025 12 31) (datetime_ymd 2025 12 31)]"
    by (simp add: book_inv_def Book_def record_checkout_def)
  from counter_equals_history_length [of "''B1''" "''T1''" "''A1''" "''I1''" "Book ''B1'' ''T1'' ''A1'' ''I1''"
      "''M1''" "datetime_ymd 2025 12 5"] inv0 adds
  show ?thesis
    by blast
qed

end
